theory Spec2Isabelle
  imports Complex_Main "HOL-Library.Sublist"
begin

section \<open>The numeric display formatter (useBigNumberFormatter)\<close>

text \<open>
  The formatter of the repository (\<^verbatim>\<open>useBigNumberFormatter\<close> and its helpers
  \<^verbatim>\<open>getFormattedZeroValue\<close>, \<^verbatim>\<open>unAbbreviateNumber\<close>, \<^verbatim>\<open>abbreviateNumber\<close>,
  \<^verbatim>\<open>getNumberMinimalDecimals\<close>) is embedded as pure functions. The reactive
  wrappers (\<^verbatim>\<open>Ref\<close>, \<^verbatim>\<open>computed\<close>) only cache a pure function of the source value
  and the options, so every \<^verbatim>\<open>computed\<close> of the source is a function of the options
  and the raw value here.

  The formatter is written against three external collaborators: the
  arbitrary-precision decimal type of bignumber.js (\<^verbatim>\<open>BigNumber\<close>,
  \<^verbatim>\<open>BigNumberInBase\<close>), the compact number format of \<^verbatim>\<open>Intl.NumberFormat\<close>, and
  \<^verbatim>\<open>getExactDecimalsFromNumber\<close>. Their code is not part of the repository; the
  first sections model the operations the formatter calls from their documented
  behaviour.
\<close>

subsection \<open>Strings\<close>

text \<open>
  A JavaScript string is modelled as a \<^typ>\<open>string\<close>. Every character the formatter
  inspects (digits, sign, separators, the unit letters) is ASCII; the two
  non-ASCII signs that occur in its outputs are carried as their UTF-8 bytes, which
  no test of the formatter can confuse with an ASCII character.
\<close>

definition approxMarker :: string where
  "approxMarker = [CHR 0xE2, CHR 0x89, CHR 0x88]"

definition infinitySign :: string where
  "infinitySign = [CHR 0xE2, CHR 0x88, CHR 0x9E]"

definition digitChars :: string where
  "digitChars = ''0123456789''"

definition isDigit :: "char \<Rightarrow> bool" where
  "isDigit c = (c \<in> set digitChars)"

definition digitChar :: "int \<Rightarrow> char" where
  "digitChar d = digitChars ! nat d"

text \<open>The value of a digit, looked up in the digit alphabet.\<close>

definition digitValue :: "char \<Rightarrow> int" where
  "digitValue c =
     (case map_of (zip digitChars [0, 1, 2, 3, 4, 5, 6, 7, 8, 9]) c of
        Some d \<Rightarrow> d
      | None \<Rightarrow> 0)"

text \<open>
  The decimal digits of a non-negative integer, most significant first. Coefficients
  are integers throughout, as they are unbounded in the library.
\<close>

function decDigits :: "int \<Rightarrow> string" where
  "decDigits n = (if n < 10 then [digitChar n] else decDigits (n div 10) @ [digitChar (n mod 10)])"
  by pat_completeness auto
termination
  by (relation "measure nat") auto

declare decDigits.simps [simp del]

text \<open>The value of a digit string, read left to right.\<close>

fun digitsValue :: "int \<Rightarrow> string \<Rightarrow> int" where
  "digitsValue acc [] = acc"
| "digitsValue acc (c # cs) = digitsValue (acc * 10 + digitValue c) cs"

text \<open>
  What follows the first decimal point of a rendering (nothing when it has none), and
  the number of characters there.
\<close>

definition fractionText :: "string \<Rightarrow> string" where
  "fractionText s = drop 1 (dropWhile (\<lambda>c. c \<noteq> CHR ''.'') s)"

definition fractionDigits :: "string \<Rightarrow> nat" where
  "fractionDigits s = length (fractionText s)"

subsection \<open>The decimal type (bignumber.js)\<close>

text \<open>
  Modelled from the spec: the arbitrary-precision decimal type is an external
  collaborator (bignumber.js), whose code is not in the repository. The spec lists
  what the formatter consumes of it: construction from a string or a number,
  subtraction, multiplication, comparison (\<^verbatim>\<open>eq\<close>, \<^verbatim>\<open>lte\<close>, \<^verbatim>\<open>lt\<close>, \<^verbatim>\<open>gte\<close>),
  absolute value, shifting by a power of ten, NaN detection, and the fixed and the
  grouped rendering under a rounding mode. The definitions give each operation the
  result the library documents for it.

  A \<^verbatim>\<open>BigNumber\<close> is NaN, plus or minus Infinity (\<open>BInf True\<close> is the negative
  one), or a finite decimal. The finite value \<open>BFin m k\<close> is \<open>m / 10 ^ k\<close>: an
  integer coefficient and the number of decimal places it is shifted by. The library
  keeps its coefficient free of trailing zeros; here several pairs denote one value,
  and every operation below depends on the value only. The sign of zero is not
  modelled, and the library's exponent range (plus or minus \<open>10^7\<close> by default) is
  applied where a string is read, not to the results of the arithmetic.

  A JavaScript \<^verbatim>\<open>number\<close> is modelled by the same type: NaN, the infinities, or
  the decimal that \<^verbatim>\<open>String(n)\<close> prints, which is the value both
  \<^verbatim>\<open>new BigNumber(n)\<close> and \<^verbatim>\<open>Intl.NumberFormat\<close> read. The rounding of
  \<^verbatim>\<open>toNumber()\<close> to a double is not modelled: \<open>toNumber\<close> is exact, as it is for
  every decimal of at most 15 significant digits.
\<close>

datatype bignumber = BNaN | BInf bool | BFin int nat

type_synonym number = bignumber

datatype rounding_mode =
    ROUND_UP | ROUND_DOWN | ROUND_CEIL | ROUND_FLOOR
  | ROUND_HALF_UP | ROUND_HALF_DOWN | ROUND_HALF_EVEN | ROUND_HALF_CEIL | ROUND_HALF_FLOOR

definition toNumber :: "bignumber \<Rightarrow> number" where
  "toNumber v = v"

definition bnOfNumber :: "number \<Rightarrow> bignumber" where
  "bnOfNumber n = n"

fun bnIsNaN :: "bignumber \<Rightarrow> bool" where
  "bnIsNaN BNaN = True"
| "bnIsNaN _ = False"

fun bnIsZero :: "bignumber \<Rightarrow> bool" where
  "bnIsZero (BFin m k) = (m = 0)"
| "bnIsZero _ = False"

fun bnIsFinite :: "bignumber \<Rightarrow> bool" where
  "bnIsFinite (BFin m k) = True"
| "bnIsFinite _ = False"

text \<open>
  \<^verbatim>\<open>comparedTo\<close>: \<open>None\<close> when either side is NaN, otherwise the sign of the
  difference. Two finite decimals are compared on a common scale.
\<close>

fun bnCompare :: "bignumber \<Rightarrow> bignumber \<Rightarrow> int option" where
  "bnCompare BNaN _ = None"
| "bnCompare _ BNaN = None"
| "bnCompare (BInf a) (BInf b) = Some (if a = b then 0 else if a then - 1 else 1)"
| "bnCompare (BInf a) (BFin m k) = Some (if a then - 1 else 1)"
| "bnCompare (BFin m k) (BInf b) = Some (if b then 1 else - 1)"
| "bnCompare (BFin m k) (BFin n j) = Some (sgn (m * 10 ^ j - n * 10 ^ k))"

definition bnEq :: "bignumber \<Rightarrow> bignumber \<Rightarrow> bool" where
  "bnEq x y = (bnCompare x y = Some 0)"

definition bnLt :: "bignumber \<Rightarrow> bignumber \<Rightarrow> bool" where
  "bnLt x y = (bnCompare x y = Some (- 1))"

definition bnLte :: "bignumber \<Rightarrow> bignumber \<Rightarrow> bool" where
  "bnLte x y = (bnCompare x y = Some (- 1) \<or> bnCompare x y = Some 0)"

definition bnGte :: "bignumber \<Rightarrow> bignumber \<Rightarrow> bool" where
  "bnGte x y = (bnCompare x y = Some 1 \<or> bnCompare x y = Some 0)"

fun bnAbs :: "bignumber \<Rightarrow> bignumber" where
  "bnAbs BNaN = BNaN"
| "bnAbs (BInf a) = BInf False"
| "bnAbs (BFin m k) = BFin \<bar>m\<bar> k"

text \<open>\<^verbatim>\<open>minus\<close> is exact: the difference of two finite decimals on their common scale.\<close>

fun bnMinus :: "bignumber \<Rightarrow> bignumber \<Rightarrow> bignumber" where
  "bnMinus BNaN _ = BNaN"
| "bnMinus _ BNaN = BNaN"
| "bnMinus (BInf a) (BInf b) = (if a = b then BNaN else BInf a)"
| "bnMinus (BInf a) (BFin m k) = BInf a"
| "bnMinus (BFin m k) (BInf b) = BInf (\<not> b)"
| "bnMinus (BFin m k) (BFin n j) = BFin (m * 10 ^ j - n * 10 ^ k) (k + j)"

fun bnMultipliedBy :: "bignumber \<Rightarrow> bignumber \<Rightarrow> bignumber" where
  "bnMultipliedBy BNaN _ = BNaN"
| "bnMultipliedBy _ BNaN = BNaN"
| "bnMultipliedBy (BInf a) (BInf b) = BInf (a \<noteq> b)"
| "bnMultipliedBy (BInf a) (BFin m k) = (if m = 0 then BNaN else BInf (a \<noteq> (m < 0)))"
| "bnMultipliedBy (BFin m k) (BInf b) = (if m = 0 then BNaN else BInf (b \<noteq> (m < 0)))"
| "bnMultipliedBy (BFin m k) (BFin n j) = BFin (m * n) (k + j)"

text \<open>
  The rational number a finite value denotes. It is used to state what the operations
  compute; NaN and the infinities denote no number and are given 0.
\<close>

fun bnValue :: "bignumber \<Rightarrow> rat" where
  "bnValue (BFin m k) = of_int m / 10 ^ k"
| "bnValue _ = 0"

text \<open>\<^verbatim>\<open>shiftedBy(-n)\<close>, the only direction the formatter uses: division by \<open>10 ^ n\<close>.\<close>

fun bnShiftedDown :: "bignumber \<Rightarrow> nat \<Rightarrow> bignumber" where
  "bnShiftedDown (BFin m k) n = BFin m (k + n)"
| "bnShiftedDown v n = v"

text \<open>
  The coefficient without its trailing zeros: the form in which the library stores
  and prints a finite value.
\<close>

fun bnNormalise :: "int \<Rightarrow> nat \<Rightarrow> int \<times> nat" where
  "bnNormalise m 0 = (m, 0)"
| "bnNormalise m (Suc k) = (if m mod 10 = 0 then bnNormalise (m div 10) k else (m, Suc k))"

subsection \<open>Rendering a decimal\<close>

text \<open>
  Rounding a non-negative quotient \<open>n / 10 ^ j\<close> to an integer under one of the nine
  rounding modes of the library; \<open>neg\<close> is the sign of the number being rounded,
  which the directed modes look at.
\<close>

fun roundsUp :: "rounding_mode \<Rightarrow> bool \<Rightarrow> int \<Rightarrow> int \<Rightarrow> int \<Rightarrow> bool" where
  "roundsUp ROUND_UP neg q r den = (r > 0)"
| "roundsUp ROUND_DOWN neg q r den = False"
| "roundsUp ROUND_CEIL neg q r den = (r > 0 \<and> \<not> neg)"
| "roundsUp ROUND_FLOOR neg q r den = (r > 0 \<and> neg)"
| "roundsUp ROUND_HALF_UP neg q r den = (2 * r \<ge> den)"
| "roundsUp ROUND_HALF_DOWN neg q r den = (2 * r > den)"
| "roundsUp ROUND_HALF_EVEN neg q r den = (2 * r > den \<or> (2 * r = den \<and> odd q))"
| "roundsUp ROUND_HALF_CEIL neg q r den = (2 * r > den \<or> (2 * r = den \<and> \<not> neg))"
| "roundsUp ROUND_HALF_FLOOR neg q r den = (2 * r > den \<or> (2 * r = den \<and> neg))"

definition roundAt :: "rounding_mode \<Rightarrow> bool \<Rightarrow> int \<Rightarrow> nat \<Rightarrow> int" where
  "roundAt rm neg n j =
     (let q = n div 10 ^ j; r = n mod 10 ^ j
      in if roundsUp rm neg q r (10 ^ j) then q + 1 else q)"

text \<open>The magnitude of \<open>m / 10 ^ k\<close> at \<open>dp\<close> decimal places, in units of \<open>10 ^ - dp\<close>.\<close>

definition scaledCoefficient :: "rounding_mode \<Rightarrow> int \<Rightarrow> nat \<Rightarrow> nat \<Rightarrow> int" where
  "scaledCoefficient rm m k dp =
     (if k \<le> dp then \<bar>m\<bar> * 10 ^ (dp - k) else roundAt rm (m < 0) \<bar>m\<bar> (k - dp))"

definition padZeros :: "nat \<Rightarrow> string \<Rightarrow> string" where
  "padZeros n s = replicate (n - length s) CHR ''0'' @ s"

text \<open>The integer and the fraction digits of the coefficient \<open>c\<close> at \<open>dp\<close> places.\<close>

definition integerPart :: "int \<Rightarrow> nat \<Rightarrow> string" where
  "integerPart c dp = (let ds = padZeros (dp + 1) (decDigits c) in take (length ds - dp) ds)"

definition fractionPart :: "int \<Rightarrow> nat \<Rightarrow> string" where
  "fractionPart c dp = (let ds = padZeros (dp + 1) (decDigits c) in drop (length ds - dp) ds)"

definition signPrefix :: "int \<Rightarrow> string" where
  "signPrefix m = (if m < 0 then ''-'' else [])"

text \<open>
  \<^verbatim>\<open>toFixed(dp, rm)\<close>: normal notation with exactly \<open>dp\<close> decimal places, rounded
  by \<open>rm\<close>; the sign of a negative value is kept when it rounds to zero. NaN and
  the infinities print their names.
\<close>

fun bnToFixed :: "bignumber \<Rightarrow> nat \<Rightarrow> rounding_mode \<Rightarrow> string" where
  "bnToFixed BNaN dp rm = ''NaN''"
| "bnToFixed (BInf a) dp rm = (if a then ''-Infinity'' else ''Infinity'')"
| "bnToFixed (BFin m k) dp rm =
     (let c = scaledCoefficient rm m k dp
      in signPrefix m @ integerPart c dp @ (if dp = 0 then [] else CHR ''.'' # fractionPart c dp))"

text \<open>\<^verbatim>\<open>toFixed()\<close> without arguments: the exact value, with no trailing zeros.\<close>

fun bnToFixedExact :: "bignumber \<Rightarrow> string" where
  "bnToFixedExact BNaN = ''NaN''"
| "bnToFixedExact (BInf a) = (if a then ''-Infinity'' else ''Infinity'')"
| "bnToFixedExact (BFin m k) =
     (case bnNormalise m k of (m', k') \<Rightarrow>
        signPrefix m' @ integerPart \<bar>m'\<bar> k' @
        (if k' = 0 then [] else CHR ''.'' # fractionPart \<bar>m'\<bar> k'))"

text \<open>Groups of three digits from the right, separated by commas.\<close>

fun groupRest :: "string \<Rightarrow> string" where
  "groupRest (a # b # c # cs) = CHR '','' # a # b # c # groupRest cs"
| "groupRest cs = (if cs = [] then [] else CHR '','' # cs)"

definition groupDigits :: "string \<Rightarrow> string" where
  "groupDigits ds =
     (let i = (if length ds mod 3 = 0 then 3 else length ds mod 3)
      in take i ds @ groupRest (drop i ds))"

text \<open>
  \<^verbatim>\<open>toFormat(dp, rm)\<close> with the library's default format: the rendering of
  \<^verbatim>\<open>toFixed(dp, rm)\<close> with its integer digits grouped.
\<close>

fun bnToFormat :: "bignumber \<Rightarrow> nat \<Rightarrow> rounding_mode \<Rightarrow> string" where
  "bnToFormat BNaN dp rm = ''NaN''"
| "bnToFormat (BInf a) dp rm = (if a then ''-Infinity'' else ''Infinity'')"
| "bnToFormat (BFin m k) dp rm =
     (let c = scaledCoefficient rm m k dp
      in signPrefix m @ groupDigits (integerPart c dp) @
         (if dp = 0 then [] else CHR ''.'' # fractionPart c dp))"

subsection \<open>Reading a decimal from a string\<close>

text \<open>
  Modelled from the spec: the constructor of the decimal type from a string
  (\<^verbatim>\<open>new BigNumber(str)\<close>), as bignumber.js defines it outside its debug mode, where
  it never raises.

  A string that matches the library's pattern for a decimal literal
  (\<^verbatim>\<open>/^-?(\d+(\.\d*)?|\.\d+)(e[+-]?\d+)?$/i\<close>) is read as that decimal; a value whose
  decimal exponent lies beyond the library's default range of plus or minus \<open>10^7\<close>
  overflows to an infinity or underflows to zero.
\<close>

definition parseExponent :: "string \<Rightarrow> int option" where
  "parseExponent s =
     (case s of
        [] \<Rightarrow> Some 0
      | c # r \<Rightarrow>
          if c = CHR ''e'' \<or> c = CHR ''E'' then
            (let neg = (r \<noteq> [] \<and> hd r = CHR ''-'');
                 ds = (if r \<noteq> [] \<and> (hd r = CHR ''-'' \<or> hd r = CHR ''+'') then tl r else r)
             in if ds \<noteq> [] \<and> list_all isDigit ds
                then Some (if neg then - digitsValue 0 ds else digitsValue 0 ds)
                else None)
          else None)"

definition MAX_EXP :: int where
  "MAX_EXP = 10000000"

definition parseDecimal :: "string \<Rightarrow> bignumber option" where
  "parseDecimal s =
     (let neg = (s \<noteq> [] \<and> hd s = CHR ''-'');
          r0 = (if neg then tl s else s);
          ip = takeWhile isDigit r0;
          r1 = dropWhile isDigit r0;
          dot = (r1 \<noteq> [] \<and> hd r1 = CHR ''.'');
          fp = (if dot then takeWhile isDigit (tl r1) else []);
          r2 = (if dot then dropWhile isDigit (tl r1) else r1)
      in if ip = [] \<and> fp = [] then None
         else
           (case parseExponent r2 of
              None \<Rightarrow> None
            | Some ex \<Rightarrow>
                (let c = digitsValue 0 (ip @ fp);
                     m = (if neg then - c else c);
                     sci = int (length (decDigits c)) - 1 + ex - int (length fp)
                 in if c \<noteq> 0 \<and> sci > MAX_EXP then Some (BInf neg)
                    else if c \<noteq> 0 \<and> sci < - MAX_EXP then Some (BFin 0 0)
                    else if ex \<ge> int (length fp)
                    then Some (BFin (m * 10 ^ nat (ex - int (length fp))) 0)
                    else Some (BFin m (nat (int (length fp) - ex))))))"

text \<open>
  Any other string goes through the library's \<^verbatim>\<open>parseNumeric\<close>. It first removes
  what \<^verbatim>\<open>/^\s*\+(?=[\w.])|^\s+|\s+$/g\<close> matches: leading white space with a plus
  sign that a word character or a point follows, or else leading white space, and
  trailing white space. The white space of JavaScript beyond ASCII is listed by its
  UTF-8 bytes.
\<close>

definition whiteSpaces :: "string list" where
  "whiteSpaces =
     [[CHR 0x09], [CHR 0x0A], [CHR 0x0B], [CHR 0x0C], [CHR 0x0D], [CHR 0x20],
      [CHR 0xC2, CHR 0xA0], [CHR 0xE1, CHR 0x9A, CHR 0x80]] @
     map (\<lambda>b. [CHR 0xE2, CHR 0x80, b])
       [CHR 0x80, CHR 0x81, CHR 0x82, CHR 0x83, CHR 0x84, CHR 0x85, CHR 0x86, CHR 0x87,
        CHR 0x88, CHR 0x89, CHR 0x8A, CHR 0xA8, CHR 0xA9, CHR 0xAF] @
     [[CHR 0xE2, CHR 0x81, CHR 0x9F], [CHR 0xE3, CHR 0x80, CHR 0x80],
      [CHR 0xEF, CHR 0xBB, CHR 0xBF]]"

function dropLeading :: "string list \<Rightarrow> string \<Rightarrow> string" where
  "dropLeading ws s =
     (case find (\<lambda>w. w \<noteq> [] \<and> prefix w s) ws of
        None \<Rightarrow> s
      | Some w \<Rightarrow> dropLeading ws (drop (length w) s))"
  by pat_completeness auto
termination
proof (relation "measure (\<lambda>(ws, s). length s)")
  show "wf (measure (\<lambda>(ws, s). length s))" by simp
next
  fix ws :: "string list" and s w :: string
  assume "find (\<lambda>w. w \<noteq> [] \<and> prefix w s) ws = Some w"
  then have "w \<noteq> [] \<and> prefix w s" by (auto simp: find_Some_iff)
  then have "0 < length w" and "length w \<le> length s" by (simp_all add: prefix_length_le)
  then have "length s - length w < length s" by arith
  then show "((ws, drop (length w) s), (ws, s)) \<in> measure (\<lambda>(ws, s). length s)" by simp
qed

declare dropLeading.simps [simp del]

definition dropTrailing :: "string list \<Rightarrow> string \<Rightarrow> string" where
  "dropTrailing ws s = rev (dropLeading (map rev ws) (rev s))"

definition wordChars :: string where
  "wordChars = ''ABCDEFGHIJKLMNOPQRSTUVWXYZabcdefghijklmnopqrstuvwxyz0123456789_''"

definition isWordChar :: "char \<Rightarrow> bool" where
  "isWordChar c = (c \<in> set wordChars)"

definition stripWhitespaceOrPlus :: "string \<Rightarrow> string" where
  "stripWhitespaceOrPlus str =
     (let t = dropLeading whiteSpaces str;
          l = (case t of
                 c # d # r \<Rightarrow>
                   if c = CHR ''+'' \<and> (isWordChar d \<or> d = CHR ''.'') then d # r else t
               | _ \<Rightarrow> t)
      in dropTrailing whiteSpaces l)"

text \<open>
  A base prefix, \<^verbatim>\<open>/^(-?)0([xbo])(?=\w[\w.]*$)/i\<close>: the sign, the base and what
  follows the prefix, which is made of word characters and points and starts with a
  word character.
\<close>

definition baseOfLetter :: "char \<Rightarrow> nat option" where
  "baseOfLetter p =
     (if p = CHR ''x'' \<or> p = CHR ''X'' then Some 16
      else if p = CHR ''b'' \<or> p = CHR ''B'' then Some 2
      else if p = CHR ''o'' \<or> p = CHR ''O'' then Some 8
      else None)"

definition basePrefix :: "string \<Rightarrow> (bool \<times> nat \<times> string) option" where
  "basePrefix s =
     (let neg = (s \<noteq> [] \<and> hd s = CHR ''-'');
          r = (if neg then tl s else s)
      in case r of
           z # p # rest \<Rightarrow>
             if z = CHR ''0'' \<and> rest \<noteq> [] \<and> isWordChar (hd rest) \<and>
                list_all (\<lambda>c. isWordChar c \<or> c = CHR ''.'') rest
             then (case baseOfLetter p of Some b \<Rightarrow> Some (neg, b, rest) | None \<Rightarrow> None)
             else None
         | _ \<Rightarrow> None)"

text \<open>
  \<^verbatim>\<open>new BigNumber(str, b)\<close> for a base of 2, 8 or 16: the digits are those of the
  library's alphabet below the base, in lower case or, throughout, in upper case,
  with at most one point, which is not the first character. A fraction is converted
  by a division to the library's default of 20 decimal places, rounding half up.
\<close>

definition baseAlphabet :: string where
  "baseAlphabet = ''0123456789abcdefghijklmnopqrstuvwxyz''"

definition baseDigitValue :: "char \<Rightarrow> int" where
  "baseDigitValue c =
     (case map_of (zip baseAlphabet
        [0, 1, 2, 3, 4, 5, 6, 7, 8, 9, 10, 11, 12, 13, 14, 15, 16, 17, 18, 19, 20, 21, 22,
         23, 24, 25, 26, 27, 28, 29, 30, 31, 32, 33, 34, 35]) c of
        Some d \<Rightarrow> d
      | None \<Rightarrow> 0)"

definition upperLetters :: string where
  "upperLetters = ''ABCDEFGHIJKLMNOPQRSTUVWXYZ''"

definition lowerLetters :: string where
  "lowerLetters = ''abcdefghijklmnopqrstuvwxyz''"

definition toLowerCase :: "string \<Rightarrow> string" where
  "toLowerCase s =
     map (\<lambda>c. case map_of (zip upperLetters lowerLetters) c of Some l \<Rightarrow> l | None \<Rightarrow> c) s"

definition toUpperCase :: "string \<Rightarrow> string" where
  "toUpperCase s =
     map (\<lambda>c. case map_of (zip lowerLetters upperLetters) c of Some u \<Rightarrow> u | None \<Rightarrow> c) s"

definition validBaseBody :: "nat \<Rightarrow> string \<Rightarrow> bool" where
  "validBaseBody b body =
     (list_all (\<lambda>c. c \<in> set (take b baseAlphabet) \<or> c = CHR ''.'') body \<and>
      length (filter (\<lambda>c. c = CHR ''.'') body) \<le> 1 \<and>
      (case body of [] \<Rightarrow> True | c # r \<Rightarrow> c \<noteq> CHR ''.''))"

definition baseBody :: "nat \<Rightarrow> string \<Rightarrow> string option" where
  "baseBody b body =
     (if validBaseBody b body then Some body
      else if body = toUpperCase body \<and> validBaseBody b (toLowerCase body)
      then Some (toLowerCase body)
      else None)"

definition DECIMAL_PLACES :: nat where
  "DECIMAL_PLACES = 20"

definition baseValue :: "bool \<Rightarrow> nat \<Rightarrow> string \<Rightarrow> bignumber" where
  "baseValue neg b body =
     (let ip = takeWhile (\<lambda>c. c \<noteq> CHR ''.'') body;
          fp = drop 1 (dropWhile (\<lambda>c. c \<noteq> CHR ''.'') body);
          n = foldl (\<lambda>a c. a * int b + baseDigitValue c) 0 (ip @ fp);
          t = (if b = 16 then 4 else if b = 8 then 3 else 1) * length fp;
          c = (if t \<le> DECIMAL_PLACES then n * 5 ^ t
               else roundAt ROUND_HALF_UP neg (n * 5 ^ t) (t - DECIMAL_PLACES))
      in BFin (if neg then - c else c) (min t DECIMAL_PLACES))"

text \<open>
  The two repairs \<^verbatim>\<open>parseNumeric\<close> makes when a base is given: a single point at the
  end is dropped, and a single point at the start gets a zero before it.
\<close>

definition dotAfter :: "string \<Rightarrow> string" where
  "dotAfter s =
     (if s \<noteq> [] \<and> last s = CHR ''.'' \<and> butlast s \<noteq> [] \<and> CHR ''.'' \<notin> set (butlast s)
      then butlast s else s)"

definition dotBefore :: "string \<Rightarrow> string" where
  "dotBefore s =
     (if s \<noteq> [] \<and> hd s = CHR ''.'' \<and> tl s \<noteq> [] \<and> CHR ''.'' \<notin> set (tl s)
      then CHR ''0'' # s else s)"

text \<open>
  A string that is not a number of the base goes through \<^verbatim>\<open>parseNumeric\<close> with
  that base: the names of the infinities and of NaN are recognised, a further prefix
  of the same base is removed, the points are repaired, and a string that has changed
  is read again. Every change but the zero before a leading point shortens the
  string; after that one the string is a number of the base or NaN.
\<close>

function bnOfBaseString :: "nat \<Rightarrow> string \<Rightarrow> bignumber" where
  "bnOfBaseString b v =
     (let neg = (v \<noteq> [] \<and> hd v = CHR ''-'');
          body = (if neg then tl v else v)
      in case baseBody b body of
           Some d \<Rightarrow> baseValue neg b d
         | None \<Rightarrow>
             (let s = stripWhitespaceOrPlus v
              in if s = ''Infinity'' then BInf False
                 else if s = ''-Infinity'' then BInf True
                 else if s = ''NaN'' \<or> s = ''-NaN'' then BNaN
                 else
                   (let s1 = (case basePrefix s of
                                Some (n, b', rest) \<Rightarrow>
                                  if b' = b then (if n then ''-'' else []) @ rest else s
                              | None \<Rightarrow> s);
                        s2 = dotBefore (dotAfter s1)
                    in if s2 = v then BNaN
                       else if length s2 < length v then bnOfBaseString b s2
                       else (case baseBody b s2 of
                               Some d \<Rightarrow> baseValue False b d
                             | None \<Rightarrow> BNaN))))"
  by pat_completeness auto
termination
  by (relation "measure (\<lambda>(b, v). length v)") auto

declare bnOfBaseString.simps [simp del]

text \<open>
  \<^verbatim>\<open>parseNumeric\<close> without a base, and the constructor. A string that the removal
  of white space and plus sign has changed is read again; as nothing more can be
  removed from it, it is then a decimal literal or NaN.
\<close>

definition parseNumeric :: "string \<Rightarrow> bignumber" where
  "parseNumeric str =
     (let s = stripWhitespaceOrPlus str
      in if s = ''Infinity'' then BInf False
         else if s = ''-Infinity'' then BInf True
         else if s = ''NaN'' \<or> s = ''-NaN'' then BNaN
         else
           (case basePrefix s of
              Some (n, b, rest) \<Rightarrow> bnOfBaseString b ((if n then ''-'' else []) @ rest)
            | None \<Rightarrow>
                if s \<noteq> str then (case parseDecimal s of Some x \<Rightarrow> x | None \<Rightarrow> BNaN)
                else BNaN))"

definition bnOfString :: "string \<Rightarrow> bignumber" where
  "bnOfString s = (case parseDecimal s of Some v \<Rightarrow> v | None \<Rightarrow> parseNumeric s)"

text \<open>
  The finite values within the exponent range: zero, and every decimal whose first
  significant digit stands at a power of ten with an exponent from \<open>- 10^7\<close> to \<open>10^7\<close>.
\<close>

definition inExponentRange :: "bignumber \<Rightarrow> bool" where
  "inExponentRange v =
     (case v of
        BFin m k \<Rightarrow>
          m = 0 \<or>
          (- MAX_EXP \<le> int (length (decDigits \<bar>m\<bar>)) - 1 - int k \<and>
           int (length (decDigits \<bar>m\<bar>)) - 1 - int k \<le> MAX_EXP)
      | _ \<Rightarrow> False)"

subsection \<open>The compact number format (Intl.NumberFormat)\<close>

text \<open>
  Modelled from the spec: the locale-aware compact number format is an external
  collaborator (the \<^verbatim>\<open>Intl\<close> object of the JavaScript runtime); the spec describes it
  as producing K/M/B/T suffixes for magnitudes from 1000 on, with 1,234,455 printed as
  1.2M. The definition follows the rules of ECMA-402 and the English locale data for
  \<^verbatim>\<open>new Intl.NumberFormat('en-US', {notation: 'compact', compactDisplay: 'short'})\<close>:
  the unit is chosen by the decimal magnitude of the number (K from \<open>10^3\<close>, M from
  \<open>10^6\<close>, B from \<open>10^9\<close>, T from \<open>10^12\<close> on), the scaled number is rounded half
  away from zero to an integer, or to two significant digits when it is below ten
  in magnitude, trailing fraction zeros are dropped, and an integer part of five or
  more digits is grouped. A number that rounds up to the next unit is printed in
  that unit (\<open>999999\<close> is \<open>1M\<close>).
\<close>

definition unitExponent :: "int \<Rightarrow> nat" where
  "unitExponent mag =
     (if mag < 3 then 0 else if mag < 6 then 3 else if mag < 9 then 6
      else if mag < 12 then 9 else 12)"

definition unitSuffix :: "nat \<Rightarrow> string" where
  "unitSuffix e =
     (if e = 3 then ''K'' else if e = 6 then ''M'' else if e = 9 then ''B''
      else if e = 12 then ''T'' else [])"

definition stripTrailingZeros :: "string \<Rightarrow> string" where
  "stripTrailingZeros s = rev (dropWhile (\<lambda>c. c = CHR ''0'') (rev s))"

definition compactDigits :: "int \<Rightarrow> nat \<Rightarrow> string" where
  "compactDigits c f =
     (let ip = integerPart c f; fp = stripTrailingZeros (fractionPart c f)
      in (if length ip \<ge> 5 then groupDigits ip else ip) @
         (if fp = [] then [] else CHR ''.'' # fp))"

fun compactFormat :: "number \<Rightarrow> string" where
  "compactFormat BNaN = ''NaN''"
| "compactFormat (BInf a) = (if a then ''-'' else []) @ infinitySign"
| "compactFormat (BFin m k) =
     (if m = 0 then ''0''
      else
        (let a = \<bar>m\<bar>;
             mag = int (length (decDigits a)) - 1 - int k;
             e = unitExponent mag;
             f = (if mag - int e \<ge> 1 then 0 else nat (1 - (mag - int e)));
             c = roundAt ROUND_HALF_UP False (a * 10 ^ f) (k + e);
             mag' = int (length (decDigits c)) - 1 - int f
         in if mag' \<noteq> mag - int e \<and> unitExponent (mag + 1) \<noteq> e
            then signPrefix m @ ''1'' @ unitSuffix (unitExponent (mag + 1))
            else signPrefix m @ compactDigits c f @ unitSuffix e))"

subsection \<open>getExactDecimalsFromNumber\<close>

text \<open>
  Modelled from the spec: \<^verbatim>\<open>getExactDecimalsFromNumber\<close> is imported from
  \<^verbatim>\<open>@injectivelabs/utils\<close> and its code is not in the repository. The spec describes
  it as the count of digits after the decimal point in the value's exact textual
  form. The formatter only calls it on the output of \<^verbatim>\<open>toFixed()\<close>, which has no
  trailing zeros.
\<close>

definition getExactDecimalsFromNumber :: "string \<Rightarrow> nat" where
  "getExactDecimalsFromNumber s = fractionDigits s"

subsection \<open>Module constants and helpers\<close>

definition ZERO_IN_BASE :: bignumber where
  "ZERO_IN_BASE = BFin 0 0"

definition DEFAULT_DECIMAL_PLACES :: nat where
  "DEFAULT_DECIMAL_PLACES = 2"

definition DEFAULT_MINIMAL_DISPLAY_DECIMAL_PLACES :: nat where
  "DEFAULT_MINIMAL_DISPLAY_DECIMAL_PLACES = 4"

definition DEFAULT_MAX_MINIMAL_DISPLAY_DECIMAL_PLACES :: nat where
  "DEFAULT_MAX_MINIMAL_DISPLAY_DECIMAL_PLACES = 12"

definition DEFAULT_INJ_FEE :: number where
  "DEFAULT_INJ_FEE = BFin 5 3"

definition DEFAULT_ROUNDING_MODE :: rounding_mode where
  "DEFAULT_ROUNDING_MODE = ROUND_DOWN"

definition getFormattedZeroValue :: "nat \<Rightarrow> string" where
  "getFormattedZeroValue decimalPlaces =
     (if decimalPlaces > 0 then ''0.'' @ replicate decimalPlaces CHR ''0'' else ''0.0'')"

text \<open>
  The table \<^verbatim>\<open>units\<close> of \<^verbatim>\<open>unAbbreviateNumber\<close>; a character that is not a key
  looks up \<^verbatim>\<open>undefined\<close>.
\<close>

definition units :: "char \<Rightarrow> number option" where
  "units c =
     (if c = CHR ''K'' then Some (BFin (10 ^ 3) 0)
      else if c = CHR ''M'' then Some (BFin (10 ^ 6) 0)
      else if c = CHR ''B'' then Some (BFin (10 ^ 9) 0)
      else if c = CHR ''T'' then Some (BFin (10 ^ 12) 0)
      else None)"

text \<open>
  \<^verbatim>\<open>unAbbreviateNumber\<close>: \<open>None\<close> is the \<^verbatim>\<open>undefined\<close> of the early return, taken
  when the string is empty or its last character is not a unit.
\<close>

definition unAbbreviateNumber :: "string \<Rightarrow> bignumber option" where
  "unAbbreviateNumber val =
     (if val = [] then None
      else
        (case units (last val) of
           None \<Rightarrow> None
         | Some u \<Rightarrow>
             (let formattedValue = butlast (filter (\<lambda>c. c \<noteq> CHR '','') val)
              in Some (bnMultipliedBy (bnOfString formattedValue) (bnOfNumber u)))))"

text \<open>
  \<^verbatim>\<open>abbreviateNumber\<close>. A \<^verbatim>\<open>BigNumber\<close> object is always truthy, so the
  \<^verbatim>\<open>|| '0'\<close> of the source replaces exactly the \<^verbatim>\<open>undefined\<close> of
  \<^verbatim>\<open>unAbbreviateNumber\<close> by zero.
\<close>

definition abbreviateNumber :: "number \<Rightarrow> string" where
  "abbreviateNumber n =
     (let abbreviatedValue = compactFormat n;
          abbreviatedValueMatchesInput =
            bnEq (bnOfNumber n)
              (case unAbbreviateNumber abbreviatedValue of
                 Some r \<Rightarrow> r
               | None \<Rightarrow> bnOfString ''0'')
      in if abbreviatedValueMatchesInput then abbreviatedValue
         else approxMarker @ abbreviatedValue)"

record minimalDecimals =
  minimalDecimalPlaces :: nat
  minimalDisplayAmount :: bignumber

definition getNumberMinimalDecimals ::
  "bignumber \<Rightarrow> nat option \<Rightarrow> bool \<Rightarrow> minimalDecimals" where
  "getNumberMinimalDecimals val defaultMinimalDecimalPlaces displayAbsoluteDecimalPlace =
     (let valueExactDecimals = getExactDecimalsFromNumber (bnToFixedExact val);
          minimalDecimalPlaces =
            (case defaultMinimalDecimalPlaces of
               Some n \<Rightarrow> n
             | None \<Rightarrow> DEFAULT_MINIMAL_DISPLAY_DECIMAL_PLACES);
          minNumberFromDefaultMinDecimals = bnShiftedDown (BFin 1 0) minimalDecimalPlaces
      in if bnEq val (BFin 0 0) then
           \<lparr>minimalDecimalPlaces = 2, minimalDisplayAmount = ZERO_IN_BASE\<rparr>
         else if bnLte val minNumberFromDefaultMinDecimals \<and> displayAbsoluteDecimalPlace then
           (let actualMinimalDecimalPlaces =
                  (if valueExactDecimals > DEFAULT_MAX_MINIMAL_DISPLAY_DECIMAL_PLACES
                   then DEFAULT_MAX_MINIMAL_DISPLAY_DECIMAL_PLACES
                   else valueExactDecimals);
                minimalDisplayAmount = bnShiftedDown (BFin 1 0) actualMinimalDecimalPlaces
            in \<lparr>minimalDecimalPlaces = actualMinimalDecimalPlaces,
                minimalDisplayAmount = minimalDisplayAmount\<rparr>)
         else
           \<lparr>minimalDecimalPlaces = minimalDecimalPlaces,
            minimalDisplayAmount = bnShiftedDown (BFin 1 0) minimalDecimalPlaces\<rparr>)"

subsection \<open>useBigNumberFormatter\<close>

text \<open>
  The source value: \<^verbatim>\<open>undefined\<close>, \<^verbatim>\<open>null\<close>, a string, a number or a
  \<^verbatim>\<open>BigNumber\<close>. The options: every field may be left out. The decimal places are
  natural numbers, as the spec's data model has them.
\<close>

datatype rawValue = Undefined | Null | Str string | Num number | Big bignumber

record options =
  opt_decimalPlaces :: "nat option"
  opt_minimalDecimalPlaces :: "nat option"
  opt_abbreviationFloor :: "number option"
  opt_injFee :: "number option"
  opt_roundingMode :: "rounding_mode option"
  opt_displayAbsoluteDecimalPlace :: "bool option"

definition defaultOptions :: options where
  "defaultOptions =
     \<lparr>opt_decimalPlaces = None, opt_minimalDecimalPlaces = None, opt_abbreviationFloor = None,
      opt_injFee = None, opt_roundingMode = None, opt_displayAbsoluteDecimalPlace = None\<rparr>"

text \<open>JavaScript truthiness of the values the formatter tests.\<close>

definition numberTruthy :: "number \<Rightarrow> bool" where
  "numberTruthy n = (\<not> bnIsNaN n \<and> \<not> bnIsZero n)"

fun rawTruthy :: "rawValue \<Rightarrow> bool" where
  "rawTruthy Undefined = False"
| "rawTruthy Null = False"
| "rawTruthy (Str s) = (s \<noteq> [])"
| "rawTruthy (Num n) = numberTruthy n"
| "rawTruthy (Big v) = True"

text \<open>
  \<^verbatim>\<open>new BigNumberInBase(value)\<close>: a \<^verbatim>\<open>BigNumber\<close> is copied, a string is read, a
  number is converted, anything else is not a number.
\<close>

fun newBigNumber :: "rawValue \<Rightarrow> bignumber" where
  "newBigNumber (Big v) = v"
| "newBigNumber (Str s) = bnOfString s"
| "newBigNumber (Num n) = bnOfNumber n"
| "newBigNumber Undefined = BNaN"
| "newBigNumber Null = BNaN"

fun isBigNumber :: "rawValue \<Rightarrow> bool" where
  "isBigNumber (Big v) = True"
| "isBigNumber _ = False"

definition valueToBigNumber :: "rawValue \<Rightarrow> bignumber" where
  "valueToBigNumber raw =
     (if \<not> rawTruthy raw then BFin 0 0
      else if isBigNumber raw then (case raw of Big v \<Rightarrow> v | _ \<Rightarrow> newBigNumber raw)
      else newBigNumber raw)"

definition decimalPlaces :: "options \<Rightarrow> nat" where
  "decimalPlaces opts =
     (case opt_decimalPlaces opts of Some d \<Rightarrow> d | None \<Rightarrow> DEFAULT_DECIMAL_PLACES)"

definition injFee :: "options \<Rightarrow> number" where
  "injFee opts = (case opt_injFee opts of Some f \<Rightarrow> f | None \<Rightarrow> DEFAULT_INJ_FEE)"

text \<open>
  \<^verbatim>\<open>options.roundingMode || DEFAULT_ROUNDING_MODE\<close>: the mode \<^verbatim>\<open>ROUND_UP\<close> is the
  number 0, which is falsy, so it is replaced by the default like a missing one.
\<close>

definition roundingMode :: "options \<Rightarrow> rounding_mode" where
  "roundingMode opts =
     (case opt_roundingMode opts of
        None \<Rightarrow> DEFAULT_ROUNDING_MODE
      | Some rm \<Rightarrow> if rm = ROUND_UP then DEFAULT_ROUNDING_MODE else rm)"

definition displayAbsoluteDecimalPlace :: "options \<Rightarrow> bool" where
  "displayAbsoluteDecimalPlace opts =
     (case opt_displayAbsoluteDecimalPlace opts of Some b \<Rightarrow> b | None \<Rightarrow> False)"

text \<open>
  The condition \<^verbatim>\<open>!!options.abbreviationFloor && valueToBigNumber.value.gte(options.abbreviationFloor)\<close>,
  which three of the renderings test in the same words.
\<close>

definition abbreviationApplies :: "options \<Rightarrow> bignumber \<Rightarrow> bool" where
  "abbreviationApplies opts v =
     (case opt_abbreviationFloor opts of
        None \<Rightarrow> False
      | Some fl \<Rightarrow> numberTruthy fl \<and> bnGte v (bnOfNumber fl))"

definition valueToFixed :: "options \<Rightarrow> rawValue \<Rightarrow> string" where
  "valueToFixed opts raw =
     (let v = valueToBigNumber raw
      in if bnIsNaN v \<or> bnIsZero v then getFormattedZeroValue (decimalPlaces opts)
         else if abbreviationApplies opts v then abbreviateNumber (toNumber v)
         else bnToFixed v (decimalPlaces opts) (roundingMode opts))"

text \<open>
  \<^verbatim>\<open>minimalDisplayAmount.toFormat(minimalDecimalPlaces)\<close> passes no rounding mode and
  so uses the library's, \<^verbatim>\<open>ROUND_HALF_UP\<close> unless reconfigured; the amount is a
  power of ten with exactly that many places, so no mode rounds it.
\<close>

definition lessThanText :: "minimalDecimals \<Rightarrow> string" where
  "lessThanText r =
     ''< '' @ bnToFormat (minimalDisplayAmount r) (minimalDecimalPlaces r) ROUND_HALF_UP"

definition valueToString :: "options \<Rightarrow> rawValue \<Rightarrow> string" where
  "valueToString opts raw =
     (let v = valueToBigNumber raw
      in if bnIsNaN v \<or> bnIsZero v then getFormattedZeroValue (decimalPlaces opts)
         else if abbreviationApplies opts v then abbreviateNumber (toNumber v)
         else
           (let r = getNumberMinimalDecimals v (opt_minimalDecimalPlaces opts)
                      (displayAbsoluteDecimalPlace opts)
            in if bnLt (bnAbs v) (minimalDisplayAmount r) then lessThanText r
               else bnToFormat v (decimalPlaces opts) (roundingMode opts)))"

definition valueWithGasBuffer :: "options \<Rightarrow> rawValue \<Rightarrow> bignumber" where
  "valueWithGasBuffer opts raw =
     (let v = valueToBigNumber raw
      in if bnIsNaN v \<or> bnLte v (bnOfNumber (injFee opts)) then BFin 0 0
         else bnMinus v (bnOfNumber (injFee opts)))"

definition valueWithGasBufferToFixed :: "options \<Rightarrow> rawValue \<Rightarrow> string" where
  "valueWithGasBufferToFixed opts raw =
     (let v = valueToBigNumber raw
      in if bnIsNaN v \<or> bnIsZero v then getFormattedZeroValue (decimalPlaces opts)
         else bnToFixed (valueWithGasBuffer opts raw) (decimalPlaces opts) (roundingMode opts))"

definition valueWithGasBufferToString :: "options \<Rightarrow> rawValue \<Rightarrow> string" where
  "valueWithGasBufferToString opts raw =
     (let v = valueToBigNumber raw
      in if bnIsNaN v \<or> bnIsZero v then getFormattedZeroValue (decimalPlaces opts)
         else if abbreviationApplies opts v then abbreviateNumber (toNumber v)
         else
           (let r = getNumberMinimalDecimals v (opt_minimalDecimalPlaces opts)
                      (displayAbsoluteDecimalPlace opts)
            in if bnLt (bnAbs (valueWithGasBuffer opts raw)) (minimalDisplayAmount r)
               then lessThanText r
               else bnToFormat (valueWithGasBuffer opts raw) (decimalPlaces opts)
                      (roundingMode opts)))"

subsection \<open>The calls that raise\<close>



























section \<open>Facts about the renderings\<close>

subsection \<open>Digits and decimal points\<close>

lemma digitChar_isDigit: "d < 10 \<Longrightarrow> isDigit (digitChar d)"
  unfolding isDigit_def digitChar_def by (rule nth_mem) (simp add: digitChars_def)

lemma decDigits_nonempty: "decDigits n \<noteq> []"
  by (subst decDigits.simps) simp

lemma decDigits_isDigit: "c \<in> set (decDigits n) \<Longrightarrow> isDigit c"
proof (induction n arbitrary: c rule: decDigits.induct)
  case (1 n)
  show ?case
  proof (cases "n < 10")
    case True
    with "1.prems" show ?thesis
      by (subst (asm) decDigits.simps) (simp add: digitChar_isDigit)
  next
    case False
    have "n mod 10 < 10" by simp
    with False "1.prems" "1.IH" show ?thesis
      by (subst (asm) decDigits.simps) (auto simp: digitChar_isDigit)
  qed
qed

lemma isDigit_not_dot: "isDigit c \<Longrightarrow> c \<noteq> CHR ''.''"
  by (auto simp: isDigit_def digitChars_def)

lemma isDigit_not_marker: "isDigit c \<Longrightarrow> c \<noteq> CHR 0xE2"
  by (auto simp: isDigit_def digitChars_def)

lemma isDigit_zero: "isDigit CHR ''0''"
  by (simp add: isDigit_def digitChars_def)

lemma padZeros_isDigit: "\<forall>c\<in>set s. isDigit c \<Longrightarrow> \<forall>c\<in>set (padZeros n s). isDigit c"
  by (auto simp: padZeros_def isDigit_zero)

lemma length_padZeros: "length (padZeros n s) = max n (length s)"
  by (simp add: padZeros_def)

lemma length_fractionPart: "length (fractionPart c dp) = dp"
  by (simp add: fractionPart_def Let_def length_padZeros)

lemma length_integerPart: "length (integerPart c dp) = max (dp + 1) (length (decDigits c)) - dp"
  by (simp add: integerPart_def Let_def length_padZeros)

lemma integerPart_nonempty: "integerPart c dp \<noteq> []"
proof -
  have "length (integerPart c dp) > 0" unfolding length_integerPart by simp
  then show ?thesis by simp
qed

lemma integerPart_isDigit: "x \<in> set (integerPart c dp) \<Longrightarrow> isDigit x"
proof -
  assume a: "x \<in> set (integerPart c dp)"
  have "\<forall>c\<in>set (padZeros (dp + 1) (decDigits c)). isDigit c"
    by (rule padZeros_isDigit) (simp add: decDigits_isDigit)
  moreover from a have "x \<in> set (padZeros (dp + 1) (decDigits c))"
    unfolding integerPart_def Let_def by (rule in_set_takeD)
  ultimately show ?thesis by blast
qed

lemma fractionPart_isDigit: "x \<in> set (fractionPart c dp) \<Longrightarrow> isDigit x"
proof -
  assume a: "x \<in> set (fractionPart c dp)"
  have "\<forall>c\<in>set (padZeros (dp + 1) (decDigits c)). isDigit c"
    by (rule padZeros_isDigit) (simp add: decDigits_isDigit)
  moreover from a have "x \<in> set (padZeros (dp + 1) (decDigits c))"
    unfolding fractionPart_def Let_def by (rule in_set_dropD)
  ultimately show ?thesis by blast
qed

lemma fractionText_no_dot: "CHR ''.'' \<notin> set s \<Longrightarrow> fractionText s = []"
proof -
  assume "CHR ''.'' \<notin> set s"
  then have h: "dropWhile (\<lambda>c. c \<noteq> CHR ''.'') s = []" by (induction s) auto
  show ?thesis unfolding fractionText_def h by simp
qed

lemma fractionText_dot: "CHR ''.'' \<notin> set a \<Longrightarrow> fractionText (a @ CHR ''.'' # b) = b"
proof -
  assume "CHR ''.'' \<notin> set a"
  then have h: "dropWhile (\<lambda>c. c \<noteq> CHR ''.'') (a @ CHR ''.'' # b) = CHR ''.'' # b"
    by (induction a) auto
  show ?thesis unfolding fractionText_def h by simp
qed

lemma signPrefix_no_dot: "CHR ''.'' \<notin> set (signPrefix m)"
  by (simp add: signPrefix_def)

lemma integerPart_no_dot: "CHR ''.'' \<notin> set (integerPart c dp)"
  using integerPart_isDigit isDigit_not_dot by blast




lemma fractionText_getFormattedZeroValue:
  "fractionText (getFormattedZeroValue d) = replicate (if d = 0 then 1 else d) CHR ''0''"
  by (simp add: getFormattedZeroValue_def fractionText_def)

lemma fractionDigits_getFormattedZeroValue:
  "fractionDigits (getFormattedZeroValue d) = (if d = 0 then 1 else d)"
  unfolding fractionDigits_def fractionText_getFormattedZeroValue by simp


lemma zero_short_circuit:
  "bnIsNaN (valueToBigNumber raw) \<or> bnIsZero (valueToBigNumber raw) \<Longrightarrow>
   valueToFixed opts raw = getFormattedZeroValue (decimalPlaces opts) \<and>
   valueToString opts raw = getFormattedZeroValue (decimalPlaces opts) \<and>
   valueWithGasBufferToFixed opts raw = getFormattedZeroValue (decimalPlaces opts) \<and>
   valueWithGasBufferToString opts raw = getFormattedZeroValue (decimalPlaces opts)"
  by (simp add: valueToFixed_def valueToString_def valueWithGasBufferToFixed_def
      valueWithGasBufferToString_def Let_def)

subsection \<open>Comparison and subtraction are exact\<close>

text \<open>
  The comparisons and the subtraction of the decimal type, read through the numbers
  the finite values denote.
\<close>


lemma sgn_scaled:
  "sgn (m * 10 ^ j - n * 10 ^ k :: int) = -1 \<longleftrightarrow> bnValue (BFin m k) < bnValue (BFin n j)"
proof -
  have "(of_int m / 10 ^ k < (of_int n / 10 ^ j :: rat)) \<longleftrightarrow>
        (of_int m * 10 ^ j < (of_int n * 10 ^ k :: rat))"
    by (simp add: field_simps)
  also have "\<dots> \<longleftrightarrow> (of_int (m * 10 ^ j) < (of_int (n * 10 ^ k) :: rat))"
    by simp
  also have "\<dots> \<longleftrightarrow> m * 10 ^ j < n * 10 ^ k"
    by (simp only: of_int_less_iff)
  finally show ?thesis by (simp add: sgn_if)
qed

lemma sgn_scaled_eq:
  "sgn (m * 10 ^ j - n * 10 ^ k :: int) = 0 \<longleftrightarrow> bnValue (BFin m k) = bnValue (BFin n j)"
proof -
  have "(of_int m / 10 ^ k = (of_int n / 10 ^ j :: rat)) \<longleftrightarrow>
        (of_int m * 10 ^ j = (of_int n * 10 ^ k :: rat))"
    by (simp add: field_simps)
  also have "\<dots> \<longleftrightarrow> (of_int (m * 10 ^ j) = (of_int (n * 10 ^ k) :: rat))"
    by simp
  also have "\<dots> \<longleftrightarrow> m * 10 ^ j = n * 10 ^ k"
    by (simp only: of_int_eq_iff)
  finally show ?thesis by (simp add: sgn_if)
qed

lemma bnLte_finite:
  "bnLte (BFin m k) (BFin n j) \<longleftrightarrow> bnValue (BFin m k) \<le> bnValue (BFin n j)"
  unfolding bnLte_def bnCompare.simps option.inject sgn_scaled sgn_scaled_eq by auto

lemma bnEq_finite:
  "bnEq (BFin m k) (BFin n j) \<longleftrightarrow> bnValue (BFin m k) = bnValue (BFin n j)"
  unfolding bnEq_def bnCompare.simps option.inject sgn_scaled_eq by simp

lemma bnEq_finite_value:
  "bnEq (BFin a b) r \<Longrightarrow> \<exists>m k. r = BFin m k \<and> bnValue (BFin m k) = bnValue (BFin a b)"
proof (cases r)
  case BNaN
  assume "bnEq (BFin a b) r"
  with BNaN show ?thesis by (simp add: bnEq_def)
next
  case (BInf s)
  assume "bnEq (BFin a b) r"
  with BInf show ?thesis by (cases s) (simp_all add: bnEq_def)
next
  case (BFin m k)
  assume "bnEq (BFin a b) r"
  with BFin have "bnValue (BFin a b) = bnValue (BFin m k)" by (simp only: bnEq_finite)
  with BFin show ?thesis by simp
qed

lemma bnLt_finite:
  "bnLt (BFin m k) (BFin n j) \<longleftrightarrow> bnValue (BFin m k) < bnValue (BFin n j)"
  unfolding bnLt_def bnCompare.simps option.inject sgn_scaled by simp

lemma bnGte_finite:
  "bnGte (BFin m k) (BFin n j) \<longleftrightarrow> bnValue (BFin m k) \<ge> bnValue (BFin n j)"
proof -
  have "sgn (m * 10 ^ j - n * 10 ^ k :: int) = 1 \<longleftrightarrow> \<not> (sgn (m * 10 ^ j - n * 10 ^ k :: int) = -1 \<or> sgn (m * 10 ^ j - n * 10 ^ k :: int) = 0)"
    by (simp add: sgn_if)
  then show ?thesis
    unfolding bnGte_def bnCompare.simps option.inject sgn_scaled sgn_scaled_eq by auto
qed

lemma bnValue_minus:
  "bnValue (bnMinus (BFin m k) (BFin n j)) = bnValue (BFin m k) - bnValue (BFin n j)"
  by (simp add: field_simps power_add)

lemma bnValue_zero: "bnValue (BFin 0 0) = 0"
  by simp

subsection \<open>The compact rendering and the approximation marker\<close>

text \<open>
  No compact rendering starts with the approximation marker: it starts with a minus
  sign, a digit, the letter N or the infinity sign, whose second byte differs from
  the marker's.
\<close>

lemma bnEq_zero: "bnEq v (BFin 0 0) = bnIsZero v"
  by (cases v) (simp_all add: bnEq_def sgn_if)

lemma bnOfString_zero: "bnOfString ''0'' = BFin 0 0"
  by code_simp

lemma not_prefix_marker: "s \<noteq> [] \<Longrightarrow> hd s \<noteq> CHR 0xE2 \<Longrightarrow> \<not> prefix approxMarker (s @ t)"
  by (cases s) (simp_all add: approxMarker_def)

lemma groupDigits_hd: "ds \<noteq> [] \<Longrightarrow> groupDigits ds \<noteq> [] \<and> hd (groupDigits ds) = hd ds"
  by (cases ds) (simp_all add: groupDigits_def Let_def)

lemma compactDigits_hd: "compactDigits c f \<noteq> [] \<and> isDigit (hd (compactDigits c f))"
proof -
  have ne: "integerPart c f \<noteq> []" by (rule integerPart_nonempty)
  then have d: "isDigit (hd (integerPart c f))"
    using integerPart_isDigit [of "hd (integerPart c f)" c f] by simp
  from ne groupDigits_hd [OF ne] d show ?thesis
    by (simp add: compactDigits_def Let_def)
qed

lemma signed_digits_no_marker:
  assumes "s \<noteq> []" and "isDigit (hd s)"
  shows "\<not> prefix approxMarker (signPrefix m @ s @ t)"
proof (cases "m < 0")
  case True
  then show ?thesis by (simp add: signPrefix_def approxMarker_def)
next
  case False
  with not_prefix_marker [OF assms(1) isDigit_not_marker [OF assms(2)], of t]
  show ?thesis by (simp add: signPrefix_def)
qed

lemma compactFormat_no_marker: "\<not> prefix approxMarker (compactFormat v)"
proof (cases v)
  case BNaN
  then show ?thesis by (simp add: approxMarker_def)
next
  case (BInf a)
  then show ?thesis by (simp add: approxMarker_def infinitySign_def)
next
  case (BFin m k)
  have one: "''1'' \<noteq> [] \<and> isDigit (hd ''1'')" by (simp add: isDigit_def digitChars_def)
  show ?thesis
  proof (cases "m = 0")
    case True
    with BFin show ?thesis by (simp add: approxMarker_def)
  next
    case False
    with BFin show ?thesis
      using signed_digits_no_marker [of "''1''" m] one
        signed_digits_no_marker [of "compactDigits c f" m for c f] compactDigits_hd
      by (simp add: Let_def)
  qed
qed

subsection \<open>The minimal display of small values\<close>

text \<open>
  The exact decimals of a finite value are the places of its coefficient without
  trailing zeros. Where \<^verbatim>\<open>getNumberMinimalDecimals\<close> takes the exact-precision branch
  it returns that count, capped at 12, and the power of ten with that many places.
\<close>

lemma fractionText_bnToFixedExact:
  "fractionText (bnToFixedExact (BFin m k)) =
     (case bnNormalise m k of (m', k') \<Rightarrow> if k' = 0 then [] else fractionPart \<bar>m'\<bar> k')"
proof (cases "bnNormalise m k")
  case (Pair m' k')
  have nd: "CHR ''.'' \<notin> set (signPrefix m' @ integerPart \<bar>m'\<bar> k')"
    by (simp add: signPrefix_no_dot integerPart_no_dot)
  show ?thesis
  proof (cases "k' = 0")
    case True
    with Pair fractionText_no_dot [OF nd] show ?thesis by simp
  next
    case False
    with Pair fractionText_dot [OF nd] show ?thesis by simp
  qed
qed

lemma exactDecimals_bnToFixedExact:
  "getExactDecimalsFromNumber (bnToFixedExact (BFin m k)) = snd (bnNormalise m k)"
  unfolding getExactDecimalsFromNumber_def fractionDigits_def fractionText_bnToFixedExact
  by (cases "bnNormalise m k") (simp add: length_fractionPart)

lemma bnNormalise_value:
  "bnNormalise m k = (m', k') \<Longrightarrow> m * 10 ^ k' = m' * 10 ^ k \<and> k' \<le> k \<and> (m \<noteq> 0 \<longrightarrow> m' \<noteq> 0)"
proof (induction m k arbitrary: m' k' rule: bnNormalise.induct)
  case (1 m)
  then show ?case by simp
next
  case (2 m k)
  show ?case
  proof (cases "m mod 10 = 0")
    case True
    with "2.prems" have n: "bnNormalise (m div 10) k = (m', k')" by simp
    from "2.IH" [OF True n] have ih: "m div 10 * 10 ^ k' = m' * 10 ^ k" "k' \<le> k"
      "m div 10 \<noteq> 0 \<longrightarrow> m' \<noteq> 0" by simp_all
    from True have m: "m = m div 10 * 10" by presburger
    have "m * 10 ^ k' = (m div 10 * 10 ^ k') * 10" by (subst m) simp
    also have "\<dots> = m' * 10 ^ Suc k" using ih(1) by simp
    finally have a: "m * 10 ^ k' = m' * 10 ^ Suc k" .
    from m have "m \<noteq> 0 \<longrightarrow> m div 10 \<noteq> 0" by auto
    with a ih show ?thesis by simp
  next
    case False
    with "2.prems" show ?thesis by auto
  qed
qed

lemma exact_amount_not_above_value:
  assumes "m \<noteq> 0"
  shows "\<not> bnLt (bnAbs (BFin m k)) (BFin 1 (snd (bnNormalise m k)))"
proof (cases "bnNormalise m k")
  case (Pair m' k')
  from bnNormalise_value [OF Pair] assms
  have v: "m * 10 ^ k' = m' * 10 ^ k" and nz: "m' \<noteq> 0" by simp_all
  have "\<bar>m\<bar> * 10 ^ k' = \<bar>m * 10 ^ k'\<bar>" by (simp add: abs_mult)
  also have "\<dots> = \<bar>m'\<bar> * 10 ^ k" by (simp add: v abs_mult)
  finally have "\<bar>m\<bar> * 10 ^ k' = \<bar>m'\<bar> * 10 ^ k" .
  moreover from nz have "(10::int) ^ k \<le> \<bar>m'\<bar> * 10 ^ k" by simp
  ultimately have "\<not> \<bar>m\<bar> * 10 ^ k' < 10 ^ k" by simp
  with Pair show ?thesis by (simp add: bnLt_def sgn_if)
qed

lemma getNumberMinimalDecimals_exact_branch:
  assumes "m \<noteq> 0"
    and "bnLte (BFin m k)
           (BFin 1 (case d of Some n \<Rightarrow> n | None \<Rightarrow> DEFAULT_MINIMAL_DISPLAY_DECIMAL_PLACES))"
  shows "getNumberMinimalDecimals (BFin m k) d True =
           \<lparr>minimalDecimalPlaces = min 12 (snd (bnNormalise m k)),
            minimalDisplayAmount = BFin 1 (min 12 (snd (bnNormalise m k)))\<rparr>"
proof -
  from assms(1) have nz: "\<not> bnEq (BFin m k) (BFin 0 0)"
    by (simp add: bnEq_zero)
  from nz assms(2) show ?thesis
    unfolding getNumberMinimalDecimals_def exactDecimals_bnToFixedExact
    by (simp add: Let_def DEFAULT_MAX_MINIMAL_DISPLAY_DECIMAL_PLACES_def min_def
        del: bnToFixedExact.simps)
qed

text \<open>
  A value other than zero with at most 12 exact decimals is never strictly below the
  amount the exact-precision branch returns for it, and a value above the threshold
  is not below the threshold: with \<^verbatim>\<open>displayAbsoluteDecimalPlace\<close> set,
  \<^verbatim>\<open>valueToString\<close> prints no such value as less-than.
\<close>

lemma exact_places_never_less_than:
  assumes "m \<noteq> 0" and "snd (bnNormalise m k) \<le> 12"
    and "\<not> abbreviationApplies opts (BFin m k)"
    and "displayAbsoluteDecimalPlace opts"
  shows "valueToString opts (Big (BFin m k)) =
           bnToFormat (BFin m k) (decimalPlaces opts) (roundingMode opts)"
proof -
  define mdp where "mdp = (case opt_minimalDecimalPlaces opts of Some n \<Rightarrow> n
                           | None \<Rightarrow> DEFAULT_MINIMAL_DISPLAY_DECIMAL_PLACES)"
  define r where "r = getNumberMinimalDecimals (BFin m k) (opt_minimalDecimalPlaces opts) True"
  have v: "valueToBigNumber (Big (BFin m k)) = BFin m k"
    by (simp add: valueToBigNumber_def)
  have nlt: "\<not> bnLt (bnAbs (BFin m k)) (minimalDisplayAmount r)"
  proof (cases "bnLte (BFin m k) (BFin 1 mdp)")
    case True
    with getNumberMinimalDecimals_exact_branch [OF assms(1), of k "opt_minimalDecimalPlaces opts"]
    have "minimalDisplayAmount r = BFin 1 (min 12 (snd (bnNormalise m k)))"
      by (simp add: r_def mdp_def)
    with assms(2) have "minimalDisplayAmount r = BFin 1 (snd (bnNormalise m k))"
      by (simp add: min_def)
    with exact_amount_not_above_value [OF assms(1), of k] show ?thesis by simp
  next
    case False
    from assms(1) have nz: "\<not> bnEq (BFin m k) (BFin 0 0)" by (simp add: bnEq_zero)
    with False have a: "minimalDisplayAmount r = BFin 1 mdp"
      unfolding r_def getNumberMinimalDecimals_def
      by (simp add: Let_def mdp_def del: bnToFixedExact.simps)
    from False have "bnValue (BFin 1 mdp) < bnValue (BFin m k)"
      by (simp only: bnLte_finite not_le)
    moreover have "bnValue (BFin m k) \<le> bnValue (BFin \<bar>m\<bar> k)"
      by (simp add: divide_right_mono)
    ultimately have "\<not> bnValue (BFin \<bar>m\<bar> k) < bnValue (BFin 1 mdp)" by simp
    then have "\<not> bnLt (BFin \<bar>m\<bar> k) (BFin 1 mdp)" unfolding bnLt_finite .
    with a show ?thesis by simp
  qed
  from assms(1,3,4) nlt show ?thesis
    unfolding valueToString_def v
    by (simp add: Let_def r_def del: bnToFormat.simps)
qed

subsection \<open>Strings without a digit\<close>









subsection \<open>Reading back a printed decimal\<close>

text \<open>
  The constructor reads the digits that \<^verbatim>\<open>toFormat\<close> prints, once the group
  separators are removed, as the decimal that was printed.
\<close>

lemma digitValue_digitChar: "0 \<le> d \<Longrightarrow> d < 10 \<Longrightarrow> digitValue (digitChar d) = d"
proof -
  assume "0 \<le> d" and "d < 10"
  then have "d = 0 \<or> d = 1 \<or> d = 2 \<or> d = 3 \<or> d = 4 \<or> d = 5 \<or> d = 6 \<or> d = 7 \<or> d = 8 \<or> d = 9"
    by arith
  then show ?thesis
    by (elim disjE) (simp_all add: digitValue_def digitChar_def digitChars_def)
qed

lemma digitsValue_append: "digitsValue acc (xs @ ys) = digitsValue (digitsValue acc xs) ys"
  by (induction xs arbitrary: acc) simp_all

lemma digitsValue_decDigits: "0 \<le> n \<Longrightarrow> digitsValue 0 (decDigits n) = n"
proof (induction n rule: decDigits.induct)
  case (1 n)
  show ?case
  proof (cases "n < 10")
    case True
    with 1(2) show ?thesis
      by (simp add: decDigits.simps [of n] digitValue_digitChar)
  next
    case False
    with 1(2) have "0 \<le> n div 10" by simp
    with 1(1) False have ih: "digitsValue 0 (decDigits (n div 10)) = n div 10" by simp
    have "0 \<le> n mod 10" and "n mod 10 < 10" by simp_all
    then have dv: "digitValue (digitChar (n mod 10)) = n mod 10" by (rule digitValue_digitChar)
    from False have "decDigits n = decDigits (n div 10) @ [digitChar (n mod 10)]"
      by (simp add: decDigits.simps [of n])
    then show ?thesis by (simp add: digitsValue_append ih dv)
  qed
qed

lemma digitsValue_zeros: "digitsValue 0 (replicate j CHR ''0'' @ s) = digitsValue 0 s"
  by (induction j) (simp_all add: digitValue_def digitChars_def)

lemma digitsValue_padZeros: "digitsValue 0 (padZeros n s) = digitsValue 0 s"
  by (simp add: padZeros_def digitsValue_zeros)

lemma integerPart_fractionPart:
  "integerPart c dp @ fractionPart c dp = padZeros (dp + 1) (decDigits c)"
  by (simp add: integerPart_def fractionPart_def Let_def)

lemma digitsValue_parts: "0 \<le> c \<Longrightarrow> digitsValue 0 (integerPart c dp @ fractionPart c dp) = c"
  by (simp add: integerPart_fractionPart digitsValue_padZeros digitsValue_decDigits)

lemma filter_groupRest:
  "CHR '','' \<notin> set cs \<Longrightarrow> filter (\<lambda>c. c \<noteq> CHR '','') (groupRest cs) = cs"
  by (induction cs rule: groupRest.induct) auto

lemma filter_no_comma: "CHR '','' \<notin> set cs \<Longrightarrow> filter (\<lambda>c. c \<noteq> CHR '','') cs = cs"
  by (induction cs) auto

lemma filter_groupDigits:
  assumes "CHR '','' \<notin> set ds"
  shows "filter (\<lambda>c. c \<noteq> CHR '','') (groupDigits ds) = ds"
proof -
  define i where "i = (if length ds mod 3 = 0 then 3 else length ds mod 3)"
  from assms have a: "CHR '','' \<notin> set (take i ds)" and b: "CHR '','' \<notin> set (drop i ds)"
    by (auto dest: in_set_takeD in_set_dropD)
  have "filter (\<lambda>c. c \<noteq> CHR '','') (take i ds @ groupRest (drop i ds)) = take i ds @ drop i ds"
    by (simp add: filter_no_comma [OF a] filter_groupRest [OF b])
  then show ?thesis by (simp add: groupDigits_def Let_def i_def [symmetric])
qed

lemma isDigit_not_comma: "isDigit c \<Longrightarrow> c \<noteq> CHR '',''"
  by (auto simp: isDigit_def digitChars_def)

lemma isDigit_not_minus: "isDigit c \<Longrightarrow> c \<noteq> CHR ''-''"
  by (auto simp: isDigit_def digitChars_def)

lemma parseDecimal_printed:
  assumes ipn: "ip \<noteq> []" and ipd: "\<forall>c\<in>set ip. isDigit c" and fpd: "\<forall>c\<in>set fp. isDigit c"
  shows "parseDecimal ((if neg then ''-'' else []) @ ip @ (if fp = [] then [] else CHR ''.'' # fp)) =
    (let c = digitsValue 0 (ip @ fp);
         sci = int (length (decDigits c)) - 1 - int (length fp)
     in if c \<noteq> 0 \<and> sci > MAX_EXP then Some (BInf neg)
        else if c \<noteq> 0 \<and> sci < - MAX_EXP then Some (BFin 0 0)
        else Some (BFin (if neg then - c else c) (length fp)))"
proof -
  define rest where "rest = (if fp = [] then [] else CHR ''.'' # fp)"
  define s where "s = (if neg then ''-'' else []) @ ip @ rest"
  from ipn ipd have hd_ip: "hd ip \<noteq> CHR ''-''"
    using isDigit_not_minus [of "hd ip"] by (cases ip) auto
  have neg: "(s \<noteq> [] \<and> hd s = CHR ''-'') = neg"
    using ipn hd_ip by (auto simp: s_def)
  have r0: "(if neg then tl s else s) = ip @ rest"
    by (simp add: s_def)
  have nd: "rest = [] \<or> \<not> isDigit (hd rest)"
    using isDigit_not_dot [of "CHR ''.''"] by (auto simp: rest_def)
  have tw: "takeWhile isDigit (ip @ rest) = ip"
  proof -
    have "takeWhile isDigit rest = []" using nd by (cases rest) auto
    with ipd show ?thesis by (simp add: takeWhile_append2)
  qed
  have dw: "dropWhile isDigit (ip @ rest) = rest"
  proof -
    have "dropWhile isDigit rest = rest" using nd by (cases rest) auto
    with ipd show ?thesis by (simp add: dropWhile_append2)
  qed
  have tf: "takeWhile isDigit fp = fp" using fpd by (simp add: takeWhile_eq_all_conv)
  have df: "dropWhile isDigit fp = []" using fpd by simp
  have pe: "parseExponent [] = Some 0" by (simp add: parseExponent_def)
  show ?thesis
  proof (cases "fp = []")
    case True
    then have rest: "rest = []" by (simp add: rest_def)
    show ?thesis
      unfolding s_def [symmetric] rest_def [symmetric]
      unfolding parseDecimal_def Let_def neg r0 tw dw
      using ipn True by (simp add: rest pe)
  next
    case False
    then have rest: "rest = CHR ''.'' # fp" by (simp add: rest_def)
    show ?thesis
      unfolding s_def [symmetric] rest_def [symmetric]
      unfolding parseDecimal_def Let_def neg r0 tw dw
      using ipn False by (simp add: rest pe tf df)
  qed
qed

lemma bnOfString_bnToFormat:
  assumes r: "inExponentRange (BFin m k)"
  shows "bnOfString (filter (\<lambda>c. c \<noteq> CHR '','') (bnToFormat (BFin m k) k rm)) = BFin m k"
proof -
  define ip where "ip = integerPart \<bar>m\<bar> k"
  define fp where "fp = fractionPart \<bar>m\<bar> k"
  have sc: "scaledCoefficient rm m k k = \<bar>m\<bar>" by (simp add: scaledCoefficient_def)
  have ipn: "ip \<noteq> []" unfolding ip_def by (rule integerPart_nonempty)
  have ipd: "\<forall>c\<in>set ip. isDigit c" unfolding ip_def by (auto intro: integerPart_isDigit)
  have fpd: "\<forall>c\<in>set fp. isDigit c" unfolding fp_def by (auto intro: fractionPart_isDigit)
  have fl: "length fp = k" unfolding fp_def by (rule length_fractionPart)
  then have fe: "(fp = []) = (k = 0)" by auto
  have ic: "CHR '','' \<notin> set ip" using ipd isDigit_not_comma by blast
  have fc: "CHR '','' \<notin> set fp" using fpd isDigit_not_comma by blast
  have dv: "digitsValue 0 (ip @ fp) = \<bar>m\<bar>"
    unfolding ip_def fp_def by (rule digitsValue_parts) simp
  have body: "filter (\<lambda>c. c \<noteq> CHR '','') (bnToFormat (BFin m k) k rm) =
      (if m < 0 then ''-'' else []) @ ip @ (if fp = [] then [] else CHR ''.'' # fp)"
    unfolding fe
    by (simp add: sc Let_def signPrefix_def ip_def [symmetric] fp_def [symmetric]
        filter_groupDigits [OF ic] filter_no_comma [OF fc])
  have "parseDecimal (filter (\<lambda>c. c \<noteq> CHR '','') (bnToFormat (BFin m k) k rm)) = Some (BFin m k)"
    unfolding body parseDecimal_printed [OF ipn ipd fpd] dv fl Let_def
    using r by (auto simp: inExponentRange_def)
  then show ?thesis by (simp add: bnOfString_def)
qed

lemma units_not_comma: "units u = Some x \<Longrightarrow> u \<noteq> CHR '',''"
  by (auto simp: units_def split: if_splits)

lemma unAbbreviateNumber_printed:
  assumes r: "inExponentRange (BFin m k)" and u: "units u = Some x"
  shows "unAbbreviateNumber (bnToFormat (BFin m k) k rm @ [u]) =
         Some (bnMultipliedBy (BFin m k) x)"
proof -
  from units_not_comma [OF u]
  have "butlast (filter (\<lambda>c. c \<noteq> CHR '','') (bnToFormat (BFin m k) k rm @ [u])) =
      filter (\<lambda>c. c \<noteq> CHR '','') (bnToFormat (BFin m k) k rm)"
    by simp
  with u bnOfString_bnToFormat [OF r, of rm] show ?thesis
    by (simp add: unAbbreviateNumber_def Let_def bnOfNumber_def del: bnToFormat.simps)
qed

lemma unAbbreviateNumber_None:
  "unAbbreviateNumber t = None \<longleftrightarrow> t = [] \<or> last t \<notin> set ''KMBT''"
  by (auto simp: unAbbreviateNumber_def units_def Let_def split: option.splits if_splits)

subsection \<open>The renderings raise on no valid count of places\<close>























section \<open>The claims\<close>




text \<open>
  C2 (amended). \<^verbatim>\<open>unAbbreviateNumber\<close> returns nothing for the empty text and for a
  text that does not end in K, M, B or T; for a text that does, it reads what stands
  before the suffix, without the group separators, and multiplies it by \<open>10^3\<close>,
  \<open>10^6\<close>, \<open>10^9\<close> or \<open>10^12\<close>: the grouped print of any decimal \<open>m / 10^k\<close> within
  the exponent range, followed by a suffix, is read back as that decimal times the
  multiplier.

  \<^verbatim>\<open>abbreviateNumber\<close> compares the number reconstructed from the compact
  rendering (\<^verbatim>\<open>unAbbreviateNumber\<close> of the rendering, or zero where that returns
  nothing: the \<^verbatim>\<open>|| '0'\<close> of the source) with the input for exact equality. The
  result starts with the approximation marker if and only if the two differ; it is
  then the marker followed by the rendering, and otherwise the rendering itself.
  Consequently, whenever the result does not start with the marker and the input is
  not zero, \<^verbatim>\<open>unAbbreviateNumber\<close> of the result returns a number, which equals the
  input: for a finite input it denotes the same rational number. For zero the result
  is the text 0, which has no marker and no suffix.
\<close>

theorem abbreviateNumber_round_trip:
  "(unAbbreviateNumber t = None \<longleftrightarrow> t = [] \<or> last t \<notin> set ''KMBT'') \<and>
   (inExponentRange (BFin m k) \<longrightarrow>
      unAbbreviateNumber (bnToFormat (BFin m k) k rm @ ''K'') = Some (BFin (m * 10 ^ 3) k) \<and>
      unAbbreviateNumber (bnToFormat (BFin m k) k rm @ ''M'') = Some (BFin (m * 10 ^ 6) k) \<and>
      unAbbreviateNumber (bnToFormat (BFin m k) k rm @ ''B'') = Some (BFin (m * 10 ^ 9) k) \<and>
      unAbbreviateNumber (bnToFormat (BFin m k) k rm @ ''T'') = Some (BFin (m * 10 ^ 12) k)) \<and>
   (prefix approxMarker (abbreviateNumber v) \<longleftrightarrow>
      \<not> bnEq (bnOfNumber v)
          (case unAbbreviateNumber (compactFormat v) of Some r \<Rightarrow> r | None \<Rightarrow> bnOfString ''0'')) \<and>
   (prefix approxMarker (abbreviateNumber v) \<longrightarrow>
      abbreviateNumber v = approxMarker @ compactFormat v) \<and>
   (\<not> prefix approxMarker (abbreviateNumber v) \<longrightarrow>
      abbreviateNumber v = compactFormat v \<and>
      bnEq (bnOfNumber v)
        (case unAbbreviateNumber (abbreviateNumber v) of Some r \<Rightarrow> r | None \<Rightarrow> bnOfString ''0'')) \<and>
   (\<not> prefix approxMarker (abbreviateNumber v) \<and> \<not> bnIsZero v \<longrightarrow>
      (\<exists>r. unAbbreviateNumber (abbreviateNumber v) = Some r \<and> bnEq (bnOfNumber v) r)) \<and>
   (\<not> prefix approxMarker (abbreviateNumber v) \<and> \<not> bnIsZero v \<and> bnIsFinite v \<longrightarrow>
      (\<exists>m k. unAbbreviateNumber (abbreviateNumber v) = Some (BFin m k) \<and>
             bnValue (BFin m k) = bnValue v))"
proof -
  have un: "unAbbreviateNumber t = None \<longleftrightarrow> t = [] \<or> last t \<notin> set ''KMBT''"
    by (rule unAbbreviateNumber_None)
  have pr: "inExponentRange (BFin m k) \<longrightarrow>
      unAbbreviateNumber (bnToFormat (BFin m k) k rm @ ''K'') = Some (BFin (m * 10 ^ 3) k) \<and>
      unAbbreviateNumber (bnToFormat (BFin m k) k rm @ ''M'') = Some (BFin (m * 10 ^ 6) k) \<and>
      unAbbreviateNumber (bnToFormat (BFin m k) k rm @ ''B'') = Some (BFin (m * 10 ^ 9) k) \<and>
      unAbbreviateNumber (bnToFormat (BFin m k) k rm @ ''T'') = Some (BFin (m * 10 ^ 12) k)"
  proof
    assume r: "inExponentRange (BFin m k)"
    have "units CHR ''K'' = Some (BFin (10 ^ 3) 0)" "units CHR ''M'' = Some (BFin (10 ^ 6) 0)"
      "units CHR ''B'' = Some (BFin (10 ^ 9) 0)" "units CHR ''T'' = Some (BFin (10 ^ 12) 0)"
      by (simp_all add: units_def)
    from this [THEN unAbbreviateNumber_printed [OF r, of _ _ rm]]
    show "unAbbreviateNumber (bnToFormat (BFin m k) k rm @ ''K'') = Some (BFin (m * 10 ^ 3) k) \<and>
      unAbbreviateNumber (bnToFormat (BFin m k) k rm @ ''M'') = Some (BFin (m * 10 ^ 6) k) \<and>
      unAbbreviateNumber (bnToFormat (BFin m k) k rm @ ''B'') = Some (BFin (m * 10 ^ 9) k) \<and>
      unAbbreviateNumber (bnToFormat (BFin m k) k rm @ ''T'') = Some (BFin (m * 10 ^ 12) k)"
      by (simp del: bnToFormat.simps)
  qed
  have rt: "(prefix approxMarker (abbreviateNumber v) \<longleftrightarrow>
      \<not> bnEq (bnOfNumber v)
          (case unAbbreviateNumber (compactFormat v) of Some r \<Rightarrow> r | None \<Rightarrow> bnOfString ''0'')) \<and>
   (prefix approxMarker (abbreviateNumber v) \<longrightarrow>
      abbreviateNumber v = approxMarker @ compactFormat v) \<and>
   (\<not> prefix approxMarker (abbreviateNumber v) \<longrightarrow>
      abbreviateNumber v = compactFormat v \<and>
      bnEq (bnOfNumber v)
        (case unAbbreviateNumber (abbreviateNumber v) of Some r \<Rightarrow> r | None \<Rightarrow> bnOfString ''0'')) \<and>
   (\<not> prefix approxMarker (abbreviateNumber v) \<and> \<not> bnIsZero v \<longrightarrow>
      (\<exists>r. unAbbreviateNumber (abbreviateNumber v) = Some r \<and> bnEq (bnOfNumber v) r)) \<and>
   (\<not> prefix approxMarker (abbreviateNumber v) \<and> \<not> bnIsZero v \<and> bnIsFinite v \<longrightarrow>
      (\<exists>m k. unAbbreviateNumber (abbreviateNumber v) = Some (BFin m k) \<and>
             bnValue (BFin m k) = bnValue v))"
  proof (cases "bnEq (bnOfNumber v)
      (case unAbbreviateNumber (compactFormat v) of Some r \<Rightarrow> r | None \<Rightarrow> bnOfString ''0'')")
    case True
    then have a: "abbreviateNumber v = compactFormat v"
      by (simp add: abbreviateNumber_def Let_def)
    have ex: "\<not> bnIsZero v \<Longrightarrow>
        \<exists>r. unAbbreviateNumber (compactFormat v) = Some r \<and> bnEq (bnOfNumber v) r"
    proof (cases "unAbbreviateNumber (compactFormat v)")
      case None
      assume "\<not> bnIsZero v"
      with True None show ?thesis by (simp add: bnOfString_zero bnEq_zero bnOfNumber_def)
    next
      case (Some r)
      with True show ?thesis by simp
    qed
    have fin: "\<not> bnIsZero v \<Longrightarrow> bnIsFinite v \<Longrightarrow>
        \<exists>m k. unAbbreviateNumber (compactFormat v) = Some (BFin m k) \<and>
              bnValue (BFin m k) = bnValue v"
    proof -
      assume nz: "\<not> bnIsZero v" and f: "bnIsFinite v"
      from ex [OF nz] obtain r where r: "unAbbreviateNumber (compactFormat v) = Some r"
        and e: "bnEq (bnOfNumber v) r" by blast
      from f obtain a b where v: "v = BFin a b" by (cases v) simp_all
      from e v obtain m k where "r = BFin m k" and "bnValue (BFin m k) = bnValue (BFin a b)"
        using bnEq_finite_value [of a b r] by (auto simp: bnOfNumber_def)
      with r v show ?thesis by simp
    qed
    from True a ex fin compactFormat_no_marker [of v] show ?thesis by simp
  next
    case False
    then have a: "abbreviateNumber v = approxMarker @ compactFormat v"
      by (simp add: abbreviateNumber_def Let_def)
    with False show ?thesis by simp
  qed
  from un pr rt show ?thesis by blast
qed

theorem abbreviateNumber_round_trip_witness:
  "abbreviateNumber (BFin 1200000 0) = ''1.2M'' \<and>
   unAbbreviateNumber (abbreviateNumber (BFin 1200000 0)) = Some (BFin 12000000 1) \<and>
   bnEq (bnOfNumber (BFin 1200000 0)) (BFin 12000000 1) \<and>
   abbreviateNumber (BFin 1234455 0) = approxMarker @ ''1.2M'' \<and>
   unAbbreviateNumber ''123,456.78T'' = Some (BFin 12345678000000000000 2) \<and>
   unAbbreviateNumber ''-1.2M'' = Some (BFin (- 12000000) 1) \<and>
   unAbbreviateNumber ''12'' = None"
proof -
  have c1: "compactFormat (BFin 1200000 0) = ''1.2M''" by code_simp
  have c2: "compactFormat (BFin 1234455 0) = ''1.2M''" by code_simp
  have u: "unAbbreviateNumber ''1.2M'' = Some (BFin 12000000 1)" by code_simp
  have e1: "bnEq (bnOfNumber (BFin 1200000 0)) (BFin 12000000 1)" by code_simp
  have e2: "\<not> bnEq (bnOfNumber (BFin 1234455 0)) (BFin 12000000 1)" by code_simp
  have z: "\<not> bnIsZero (BFin 1200000 0)" by simp
  have i1: "inExponentRange (BFin 12345678 2)" by code_simp
  have i2: "inExponentRange (BFin (- 12) 1)" by code_simp
  have f1: "bnToFormat (BFin 12345678 2) 2 ROUND_DOWN = ''123,456.78''" by code_simp
  have f2: "bnToFormat (BFin (- 12) 1) 1 ROUND_DOWN = ''-1.2''" by code_simp
  have l: "''12'' \<noteq> [] \<and> last ''12'' \<notin> set ''KMBT''" by code_simp
  note t1 = abbreviateNumber_round_trip [of "''12''" 12345678 2 ROUND_DOWN "BFin 1200000 0"]
  note t2 = abbreviateNumber_round_trip [of "''12''" "- 12" 1 ROUND_DOWN "BFin 1234455 0"]
  from t1 e1 have n1: "\<not> prefix approxMarker (abbreviateNumber (BFin 1200000 0))"
    by (simp add: c1 u del: compactFormat.simps bnToFormat.simps)
  with t1 have a1: "abbreviateNumber (BFin 1200000 0) = ''1.2M''"
    by (simp add: c1 del: compactFormat.simps bnToFormat.simps)
  from t1 n1 z have "\<exists>r. unAbbreviateNumber (abbreviateNumber (BFin 1200000 0)) = Some r \<and>
      bnEq (bnOfNumber (BFin 1200000 0)) r"
    by blast
  then have u1: "unAbbreviateNumber (abbreviateNumber (BFin 1200000 0)) = Some (BFin 12000000 1)"
    by (simp add: a1 u)
  from t2 e2 have p2: "prefix approxMarker (abbreviateNumber (BFin 1234455 0))"
    by (simp add: c2 u del: compactFormat.simps bnToFormat.simps)
  with t2 have a2: "abbreviateNumber (BFin 1234455 0) = approxMarker @ ''1.2M''"
    by (simp add: c2 del: compactFormat.simps bnToFormat.simps)
  from t1 i1 have "unAbbreviateNumber (bnToFormat (BFin 12345678 2) 2 ROUND_DOWN @ ''T'') =
      Some (BFin (12345678 * 10 ^ 12) 2)"
    by blast
  then have p1: "unAbbreviateNumber ''123,456.78T'' = Some (BFin 12345678000000000000 2)"
    unfolding f1 by simp
  from t2 i2 have "unAbbreviateNumber (bnToFormat (BFin (- 12) 1) 1 ROUND_DOWN @ ''M'') =
      Some (BFin (- 12 * 10 ^ 6) 1)"
    by blast
  then have p2': "unAbbreviateNumber ''-1.2M'' = Some (BFin (- 12000000) 1)"
    unfolding f2 by simp
  from t1 l have p3: "unAbbreviateNumber ''12'' = None" by blast
  from a1 u1 e1 a2 p1 p2' p3 show ?thesis by blast
qed

text \<open>
  The claim as stated fails at zero: the result for 0 is the text 0, without the
  marker, and un-abbreviating that text returns nothing rather than the input; the
  comparison has succeeded against the zero that the source substitutes.
\<close>

theorem abbreviateNumber_zero_counterexample:
  "abbreviateNumber (BFin 0 0) = ''0'' \<and>
   prefix approxMarker (abbreviateNumber (BFin 0 0)) = False \<and>
   unAbbreviateNumber (abbreviateNumber (BFin 0 0)) = None"
  by code_simp

text \<open>
  C3. \<^verbatim>\<open>getNumberMinimalDecimals\<close> compares the signed value with the threshold, not
  its magnitude. The value \<open>- 5\<close> with \<^verbatim>\<open>minimalDecimalPlaces = 4\<close> and
  \<^verbatim>\<open>displayAbsoluteDecimalPlace\<close> set is not within \<open>10 ^ - 4\<close> in magnitude, yet
  it is below it, and the exact-precision branch is taken: 0 places and the amount 1.
  The choice shows in \<^verbatim>\<open>valueWithGasBufferToString\<close>, which prints \<^verbatim>\<open>< 1\<close> with
  the flag and \<^verbatim>\<open>< 0.0001\<close> without it.
\<close>

theorem getNumberMinimalDecimals_negative_value:
  "getNumberMinimalDecimals (BFin (- 5) 0) (Some 4) True =
     \<lparr>minimalDecimalPlaces = 0, minimalDisplayAmount = BFin 1 0\<rparr> \<and>
   bnLte (bnAbs (BFin (- 5) 0)) (bnShiftedDown (BFin 1 0) 4) = False \<and>
   bnLte (BFin (- 5) 0) (bnShiftedDown (BFin 1 0) 4) = True \<and>
   valueWithGasBufferToString (defaultOptions\<lparr>opt_displayAbsoluteDecimalPlace := Some True\<rparr>)
     (Num (BFin (- 5) 0)) = ''< 1'' \<and>
   valueWithGasBufferToString defaultOptions (Num (BFin (- 5) 0)) = ''< 0.0001''"
  by code_simp

text \<open>
  C4. For every input and every fee that is at least zero, \<^verbatim>\<open>valueWithGasBuffer\<close> is
  exact zero when the normalised value is NaN or at most the fee, and the value minus
  the fee otherwise. The result is never NaN and never below zero; for a finite value
  and a finite fee it denotes exactly \<open>max 0 (value - fee)\<close>, the difference floored
  at zero with no rounding.
\<close>

theorem valueWithGasBuffer_floored_at_zero:
  assumes "bnGte (injFee opts) (BFin 0 0)"
  shows "valueWithGasBuffer opts raw =
           (if bnIsNaN (valueToBigNumber raw) \<or> bnLte (valueToBigNumber raw) (injFee opts)
            then BFin 0 0 else bnMinus (valueToBigNumber raw) (injFee opts)) \<and>
         bnGte (valueWithGasBuffer opts raw) (BFin 0 0) \<and>
         \<not> bnIsNaN (valueWithGasBuffer opts raw) \<and>
         (bnIsFinite (valueToBigNumber raw) \<and> bnIsFinite (injFee opts) \<longrightarrow>
            bnIsFinite (valueWithGasBuffer opts raw) \<and>
            bnValue (valueWithGasBuffer opts raw) =
              max 0 (bnValue (valueToBigNumber raw) - bnValue (injFee opts)))"
proof -
  define v where "v = valueToBigNumber raw"
  define fee where "fee = injFee opts"
  define b where "b = (if bnIsNaN v \<or> bnLte v fee then BFin 0 0 else bnMinus v fee)"
  have eq: "valueWithGasBuffer opts raw = b"
    by (simp add: valueWithGasBuffer_def b_def v_def fee_def bnOfNumber_def)
  have z: "bnGte (BFin 0 0) (BFin 0 0)" by (simp add: bnGte_def)
  from assms have fee0: "bnGte fee (BFin 0 0)" by (simp add: fee_def)
  have main: "bnGte b (BFin 0 0) \<and> \<not> bnIsNaN b \<and>
     (bnIsFinite v \<and> bnIsFinite fee \<longrightarrow> bnIsFinite b \<and> bnValue b = max 0 (bnValue v - bnValue fee))"
  proof (cases v)
    case BNaN
    then show ?thesis by (simp add: b_def z)
  next
    case (BInf s)
    show ?thesis
    proof (cases fee)
      case BNaN
      with fee0 show ?thesis by (simp add: bnGte_def)
    next
      case (BInf t)
      with fee0 have "t = False" by (simp add: bnGte_def split: if_splits)
      with BInf \<open>v = BInf s\<close> show ?thesis
        by (cases s) (simp_all add: b_def bnLte_def bnGte_def)
    next
      case (BFin n j)
      with \<open>v = BInf s\<close> show ?thesis
        by (cases s) (simp_all add: b_def bnLte_def bnGte_def)
    qed
  next
    case (BFin m k)
    show ?thesis
    proof (cases fee)
      case BNaN
      with fee0 show ?thesis by (simp add: bnGte_def)
    next
      case (BInf t)
      with fee0 have "t = False" by (simp add: bnGte_def split: if_splits)
      with BInf \<open>v = BFin m k\<close> show ?thesis
        by (simp add: b_def bnLte_def bnGte_def)
    next
      case fin: (BFin n j)
      from fee0 fin have f0: "0 \<le> bnValue (BFin n j)"
        using bnGte_finite [of n j 0 0] by simp
      show ?thesis
      proof (cases "bnLte (BFin m k) (BFin n j)")
        case True
        then have "bnValue (BFin m k) \<le> bnValue (BFin n j)" by (simp only: bnLte_finite)
        with True BFin fin z show ?thesis by (simp add: b_def)
      next
        case False
        then have lt: "bnValue (BFin n j) < bnValue (BFin m k)" by (simp only: bnLte_finite not_le)
        from False BFin fin have bm: "b = BFin (m * 10 ^ j - n * 10 ^ k) (k + j)"
          by (simp add: b_def)
        have val: "bnValue b = bnValue (BFin m k) - bnValue (BFin n j)"
          using bnValue_minus [of m k n j] bm by simp
        with lt have pos: "0 \<le> bnValue b" by simp
        have "bnGte b (BFin 0 0)"
          unfolding bm using pos bm bnGte_finite [of "m * 10 ^ j - n * 10 ^ k" "k + j" 0 0]
          by simp
        with bm val lt BFin fin show ?thesis by simp
      qed
    qed
  qed
  with eq show ?thesis by (simp add: b_def v_def fee_def)
qed

theorem valueWithGasBuffer_floored_at_zero_witness:
  "valueWithGasBuffer defaultOptions (Num (BFin 1 2)) = BFin 500 5 \<and>
   bnGte (valueWithGasBuffer defaultOptions (Num (BFin 1 2))) (BFin 0 0) \<and>
   bnValue (valueWithGasBuffer defaultOptions (Num (BFin 1 2))) = 1 / 200 \<and>
   valueWithGasBuffer defaultOptions (Num (BFin 4 3)) = BFin 0 0 \<and>
   valueWithGasBuffer defaultOptions (Str ''abc'') = BFin 0 0"
proof -
  have h: "bnGte (injFee defaultOptions) (BFin 0 0)" by code_simp
  have e1: "(if bnIsNaN (valueToBigNumber (Num (BFin 1 2))) \<or>
                bnLte (valueToBigNumber (Num (BFin 1 2))) (injFee defaultOptions)
             then BFin 0 0 else bnMinus (valueToBigNumber (Num (BFin 1 2))) (injFee defaultOptions))
            = BFin 500 5"
    by code_simp
  have e2: "(if bnIsNaN (valueToBigNumber (Num (BFin 4 3))) \<or>
                bnLte (valueToBigNumber (Num (BFin 4 3))) (injFee defaultOptions)
             then BFin 0 0 else bnMinus (valueToBigNumber (Num (BFin 4 3))) (injFee defaultOptions))
            = BFin 0 0"
    by code_simp
  have e3: "(if bnIsNaN (valueToBigNumber (Str ''abc'')) \<or>
                bnLte (valueToBigNumber (Str ''abc'')) (injFee defaultOptions)
             then BFin 0 0 else bnMinus (valueToBigNumber (Str ''abc'')) (injFee defaultOptions))
            = BFin 0 0"
    by code_simp
  have fin: "bnIsFinite (valueToBigNumber (Num (BFin 1 2))) \<and> bnIsFinite (injFee defaultOptions)"
    by code_simp
  have v: "valueToBigNumber (Num (BFin 1 2)) = BFin 1 2" by code_simp
  have f: "injFee defaultOptions = BFin 5 3" by code_simp
  note t1 = valueWithGasBuffer_floored_at_zero [OF h, of "Num (BFin 1 2)"]
  note t2 = valueWithGasBuffer_floored_at_zero [OF h, of "Num (BFin 4 3)"]
  note t3 = valueWithGasBuffer_floored_at_zero [OF h, of "Str ''abc''"]
  from t1 have "valueWithGasBuffer defaultOptions (Num (BFin 1 2)) =
      (if bnIsNaN (valueToBigNumber (Num (BFin 1 2))) \<or>
          bnLte (valueToBigNumber (Num (BFin 1 2))) (injFee defaultOptions)
       then BFin 0 0 else bnMinus (valueToBigNumber (Num (BFin 1 2))) (injFee defaultOptions))"
    by (rule conjunct1)
  then have r1: "valueWithGasBuffer defaultOptions (Num (BFin 1 2)) = BFin 500 5"
    by (simp only: e1)
  from t1 have g1: "bnGte (valueWithGasBuffer defaultOptions (Num (BFin 1 2))) (BFin 0 0)"
    by blast
  from t1 fin have "bnValue (valueWithGasBuffer defaultOptions (Num (BFin 1 2))) =
      max 0 (bnValue (valueToBigNumber (Num (BFin 1 2))) - bnValue (injFee defaultOptions))"
    by blast
  then have b1: "bnValue (valueWithGasBuffer defaultOptions (Num (BFin 1 2))) = 1 / 200"
    unfolding v f by simp
  from t2 have "valueWithGasBuffer defaultOptions (Num (BFin 4 3)) =
      (if bnIsNaN (valueToBigNumber (Num (BFin 4 3))) \<or>
          bnLte (valueToBigNumber (Num (BFin 4 3))) (injFee defaultOptions)
       then BFin 0 0 else bnMinus (valueToBigNumber (Num (BFin 4 3))) (injFee defaultOptions))"
    by (rule conjunct1)
  then have r2: "valueWithGasBuffer defaultOptions (Num (BFin 4 3)) = BFin 0 0"
    by (simp only: e2)
  from t3 have "valueWithGasBuffer defaultOptions (Str ''abc'') =
      (if bnIsNaN (valueToBigNumber (Str ''abc'')) \<or>
          bnLte (valueToBigNumber (Str ''abc'')) (injFee defaultOptions)
       then BFin 0 0 else bnMinus (valueToBigNumber (Str ''abc'')) (injFee defaultOptions))"
    by (rule conjunct1)
  then have r3: "valueWithGasBuffer defaultOptions (Str ''abc'') = BFin 0 0"
    by (simp only: e3)
  from r1 g1 b1 r2 r3 show ?thesis by blast
qed




text \<open>
  C6. The scenario of the claim, evaluated on the code: for the input
  \<^verbatim>\<open>"0.00000001"\<close> with \<^verbatim>\<open>minimalDecimalPlaces = 4\<close> and
  \<^verbatim>\<open>displayAbsoluteDecimalPlace = true\<close>, \<^verbatim>\<open>getNumberMinimalDecimals\<close> answers 8
  places and the amount \<open>10 ^ - 8\<close>, whose less-than text would be the claim's
  \<^verbatim>\<open>< 0.00000001\<close>; but the value is not strictly below that amount, so
  \<^verbatim>\<open>valueToString\<close> falls through to the grouped rendering at two places and
  returns \<^verbatim>\<open>0.00\<close>.
\<close>

theorem valueToString_exact_places_scenario:
  "valueToString
     (defaultOptions\<lparr>opt_minimalDecimalPlaces := Some 4, opt_displayAbsoluteDecimalPlace := Some True\<rparr>)
     (Str ''0.00000001'') = ''0.00'' \<and>
   getNumberMinimalDecimals (valueToBigNumber (Str ''0.00000001'')) (Some 4) True =
     \<lparr>minimalDecimalPlaces = 8, minimalDisplayAmount = BFin 1 8\<rparr> \<and>
   bnLt (bnAbs (valueToBigNumber (Str ''0.00000001''))) (BFin 1 8) = False \<and>
   lessThanText \<lparr>minimalDecimalPlaces = 8, minimalDisplayAmount = BFin 1 8\<rparr> = ''< 0.00000001''"
  by code_simp

text \<open>
  C7 (amended). For the input 1234455 with \<^verbatim>\<open>abbreviationFloor = 1000\<close> and the other
  options at their defaults, \<^verbatim>\<open>valueToFixed\<close> returns the compact rendering behind
  the approximation marker: 1.2M stands for 1200000, which is not the input.
\<close>

theorem valueToFixed_abbreviates_with_marker:
  "valueToFixed (defaultOptions\<lparr>opt_abbreviationFloor := Some (BFin 1000 0)\<rparr>)
     (Num (BFin 1234455 0)) = approxMarker @ ''1.2M''"
  by code_simp

text \<open>The claim as stated, that the result is the bare \<^verbatim>\<open>1.2M\<close>, fails.\<close>

theorem valueToFixed_abbreviates_counterexample:
  "valueToFixed (defaultOptions\<lparr>opt_abbreviationFloor := Some (BFin 1000 0)\<rparr>)
     (Num (BFin 1234455 0)) \<noteq> ''1.2M''"
  by code_simp

text \<open>
  C8. \<^verbatim>\<open>valueWithGasBufferToString\<close> tests NaN and zero, and then the abbreviation
  floor, on the value before the fee is taken off, and resolves the minimal display
  from that value too; the less-than comparison and the grouped rendering are applied
  to the buffered value. Whether the abbreviation applies does not depend on the fee,
  and where it applies the buffered rendering is the same text as \<^verbatim>\<open>valueToString\<close>,
  whatever the fee.
\<close>

theorem valueWithGasBufferToString_pre_and_post_buffer:
  "valueWithGasBufferToString opts raw =
     (if bnIsNaN (valueToBigNumber raw) \<or> bnIsZero (valueToBigNumber raw)
      then getFormattedZeroValue (decimalPlaces opts)
      else if abbreviationApplies opts (valueToBigNumber raw)
      then abbreviateNumber (toNumber (valueToBigNumber raw))
      else if bnLt (bnAbs (valueWithGasBuffer opts raw))
                (minimalDisplayAmount
                  (getNumberMinimalDecimals (valueToBigNumber raw) (opt_minimalDecimalPlaces opts)
                    (displayAbsoluteDecimalPlace opts)))
      then lessThanText
             (getNumberMinimalDecimals (valueToBigNumber raw) (opt_minimalDecimalPlaces opts)
               (displayAbsoluteDecimalPlace opts))
      else bnToFormat (valueWithGasBuffer opts raw) (decimalPlaces opts) (roundingMode opts)) \<and>
   (abbreviationApplies (opts\<lparr>opt_injFee := fee\<rparr>) (valueToBigNumber raw) \<longleftrightarrow>
      abbreviationApplies opts (valueToBigNumber raw)) \<and>
   (abbreviationApplies opts (valueToBigNumber raw) \<longrightarrow>
      valueWithGasBufferToString (opts\<lparr>opt_injFee := fee\<rparr>) raw = valueToString opts raw)"
proof -
  have a: "abbreviationApplies (opts\<lparr>opt_injFee := fee\<rparr>) (valueToBigNumber raw) \<longleftrightarrow>
      abbreviationApplies opts (valueToBigNumber raw)"
    by (simp add: abbreviationApplies_def)
  have d: "decimalPlaces (opts\<lparr>opt_injFee := fee\<rparr>) = decimalPlaces opts"
    by (simp add: decimalPlaces_def)
  have "abbreviationApplies opts (valueToBigNumber raw) \<longrightarrow>
      valueWithGasBufferToString (opts\<lparr>opt_injFee := fee\<rparr>) raw = valueToString opts raw"
    using a d by (simp add: valueWithGasBufferToString_def valueToString_def Let_def)
  with a show ?thesis
    by (simp add: valueWithGasBufferToString_def Let_def)
qed

theorem valueWithGasBufferToString_pre_and_post_buffer_witness:
  "valueWithGasBufferToString
     (defaultOptions\<lparr>opt_abbreviationFloor := Some (BFin 1000 0),
        opt_injFee := Some (BFin 2000000 0)\<rparr>)
     (Num (BFin 1234455 0)) = approxMarker @ ''1.2M'' \<and>
   valueWithGasBuffer
     (defaultOptions\<lparr>opt_abbreviationFloor := Some (BFin 1000 0),
        opt_injFee := Some (BFin 2000000 0)\<rparr>)
     (Num (BFin 1234455 0)) = BFin 0 0 \<and>
   valueWithGasBufferToString
     (defaultOptions\<lparr>opt_minimalDecimalPlaces := Some 2, opt_injFee := Some (BFin 59 4),
        opt_displayAbsoluteDecimalPlace := Some True\<rparr>)
     (Num (BFin 6 3)) = ''< 0.001''"
proof -
  have h: "abbreviationApplies (defaultOptions\<lparr>opt_abbreviationFloor := Some (BFin 1000 0)\<rparr>)
             (valueToBigNumber (Num (BFin 1234455 0)))"
    by code_simp
  have s: "valueToString (defaultOptions\<lparr>opt_abbreviationFloor := Some (BFin 1000 0)\<rparr>)
             (Num (BFin 1234455 0)) = approxMarker @ ''1.2M''"
    by code_simp
  have b: "valueWithGasBuffer
     (defaultOptions\<lparr>opt_abbreviationFloor := Some (BFin 1000 0),
        opt_injFee := Some (BFin 2000000 0)\<rparr>)
     (Num (BFin 1234455 0)) = BFin 0 0"
    by code_simp
  from valueWithGasBufferToString_pre_and_post_buffer
         [of "defaultOptions\<lparr>opt_abbreviationFloor := Some (BFin 1000 0)\<rparr>"
             "Num (BFin 1234455 0)" "Some (BFin 2000000 0)"] h
  have r1: "valueWithGasBufferToString
     (defaultOptions\<lparr>opt_abbreviationFloor := Some (BFin 1000 0),
        opt_injFee := Some (BFin 2000000 0)\<rparr>)
     (Num (BFin 1234455 0)) =
     valueToString (defaultOptions\<lparr>opt_abbreviationFloor := Some (BFin 1000 0)\<rparr>)
       (Num (BFin 1234455 0))"
    by blast
  have r2: "valueWithGasBufferToString
     (defaultOptions\<lparr>opt_minimalDecimalPlaces := Some 2, opt_injFee := Some (BFin 59 4),
        opt_displayAbsoluteDecimalPlace := Some True\<rparr>)
     (Num (BFin 6 3)) = ''< 0.001''"
    by code_simp
  from r1 s b r2 show ?thesis by (simp only: simp_thms)
qed

text \<open>
  The resolution on the value before the buffer is not the one the buffered value
  would get: 0.006 has three decimals, 0.006 - 0.0059 has four.
\<close>

lemma post_buffer_resolution_differs:
  "getNumberMinimalDecimals (valueToBigNumber (Num (BFin 6 3))) (Some 2) True =
     \<lparr>minimalDecimalPlaces = 3, minimalDisplayAmount = BFin 1 3\<rparr> \<and>
   getNumberMinimalDecimals
     (valueWithGasBuffer
        (defaultOptions\<lparr>opt_minimalDecimalPlaces := Some 2, opt_injFee := Some (BFin 59 4),
           opt_displayAbsoluteDecimalPlace := Some True\<rparr>)
        (Num (BFin 6 3))) (Some 2) True =
     \<lparr>minimalDecimalPlaces = 4, minimalDisplayAmount = BFin 1 4\<rparr>"
  by code_simp

text \<open>
  C9. With \<^verbatim>\<open>decimalPlaces\<close> configured as 0, an input that normalises to NaN or to
  zero renders as \<^verbatim>\<open>0.0\<close>, with one fraction digit, in each of \<^verbatim>\<open>valueToFixed\<close>,
  \<^verbatim>\<open>valueToString\<close>, \<^verbatim>\<open>valueWithGasBufferToFixed\<close> and
  \<^verbatim>\<open>valueWithGasBufferToString\<close>; for no number of places does the zero rendering
  \<^verbatim>\<open>getFormattedZeroValue\<close> come without a fraction digit.
\<close>

theorem zero_renders_with_one_digit_at_zero_places:
  assumes "opt_decimalPlaces opts = Some 0"
    and "bnIsNaN (valueToBigNumber raw) \<or> bnIsZero (valueToBigNumber raw)"
  shows "valueToFixed opts raw = ''0.0'' \<and> valueToString opts raw = ''0.0'' \<and>
         valueWithGasBufferToFixed opts raw = ''0.0'' \<and>
         valueWithGasBufferToString opts raw = ''0.0'' \<and>
         fractionDigits ''0.0'' = 1 \<and> 0 < fractionDigits (getFormattedZeroValue d)"
proof -
  from assms(1) have z: "getFormattedZeroValue (decimalPlaces opts) = ''0.0''"
    by (simp add: decimalPlaces_def getFormattedZeroValue_def)
  have one: "fractionDigits ''0.0'' = 1"
    by (simp add: fractionDigits_def fractionText_def)
  have pos: "0 < fractionDigits (getFormattedZeroValue d)"
    by (simp add: fractionDigits_getFormattedZeroValue)
  from zero_short_circuit [OF assms(2), of opts] z one pos show ?thesis
    by simp
qed

theorem zero_renders_with_one_digit_at_zero_places_witness:
  "valueToFixed (defaultOptions\<lparr>opt_decimalPlaces := Some 0\<rparr>) (Str ''abc'') = ''0.0'' \<and>
   valueToString (defaultOptions\<lparr>opt_decimalPlaces := Some 0\<rparr>) (Str ''abc'') = ''0.0'' \<and>
   valueWithGasBufferToFixed (defaultOptions\<lparr>opt_decimalPlaces := Some 0\<rparr>) (Str ''abc'') = ''0.0'' \<and>
   valueWithGasBufferToString (defaultOptions\<lparr>opt_decimalPlaces := Some 0\<rparr>) (Str ''abc'') = ''0.0'' \<and>
   valueToFixed (defaultOptions\<lparr>opt_decimalPlaces := Some 0\<rparr>) (Num (BFin 0 0)) = ''0.0''"
proof -
  have h1: "opt_decimalPlaces (defaultOptions\<lparr>opt_decimalPlaces := Some 0\<rparr>) = Some 0"
    by simp
  have h2: "bnIsNaN (valueToBigNumber (Str ''abc'')) \<or> bnIsZero (valueToBigNumber (Str ''abc''))"
    by code_simp
  have h3: "bnIsNaN (valueToBigNumber (Num (BFin 0 0))) \<or> bnIsZero (valueToBigNumber (Num (BFin 0 0)))"
    by code_simp
  from zero_renders_with_one_digit_at_zero_places [OF h1 h2]
    zero_renders_with_one_digit_at_zero_places [OF h1 h3]
  show ?thesis by simp
qed

text \<open>
  C10. For every value other than zero whose compact rendering does not end in one of
  the units K, M, B, T, \<^verbatim>\<open>unAbbreviateNumber\<close> of the rendering returns nothing, the
  comparison falls back to zero, and \<^verbatim>\<open>abbreviateNumber\<close> returns the rendering
  behind the approximation marker, also when the rendering is exact digit for digit
  (1.5 and 999 are). Such values reach \<^verbatim>\<open>abbreviateNumber\<close> when the abbreviation
  floor is below 1000.
\<close>

theorem abbreviateNumber_without_suffix:
  assumes "\<not> bnIsZero v"
    and "last (compactFormat v) \<notin> {CHR ''K'', CHR ''M'', CHR ''B'', CHR ''T''}"
  shows "unAbbreviateNumber (compactFormat v) = None \<and>
         abbreviateNumber v = approxMarker @ compactFormat v"
proof -
  from assms(2) have "units (last (compactFormat v)) = None"
    by (simp add: units_def)
  then have n: "unAbbreviateNumber (compactFormat v) = None"
    by (simp add: unAbbreviateNumber_def)
  with assms(1) show ?thesis
    by (simp add: abbreviateNumber_def Let_def bnOfString_zero bnEq_zero bnOfNumber_def)
qed

theorem abbreviateNumber_without_suffix_witness:
  "compactFormat (BFin 15 1) = ''1.5'' \<and> abbreviateNumber (BFin 15 1) = approxMarker @ ''1.5'' \<and>
   compactFormat (BFin 999 0) = ''999'' \<and> abbreviateNumber (BFin 999 0) = approxMarker @ ''999'' \<and>
   valueToFixed (defaultOptions\<lparr>opt_abbreviationFloor := Some (BFin 1 0)\<rparr>) (Str ''1.5'') =
     approxMarker @ ''1.5''"
proof -
  have r: "valueToFixed (defaultOptions\<lparr>opt_abbreviationFloor := Some (BFin 1 0)\<rparr>) (Str ''1.5'') =
     approxMarker @ ''1.5''"
    by code_simp
  have c1: "compactFormat (BFin 15 1) = ''1.5''" by code_simp
  have c2: "compactFormat (BFin 999 0) = ''999''" by code_simp
  have z1: "\<not> bnIsZero (BFin 15 1)" by simp
  have z2: "\<not> bnIsZero (BFin 999 0)" by simp
  have l1: "last (compactFormat (BFin 15 1)) \<notin> {CHR ''K'', CHR ''M'', CHR ''B'', CHR ''T''}"
    unfolding c1 by simp
  have l2: "last (compactFormat (BFin 999 0)) \<notin> {CHR ''K'', CHR ''M'', CHR ''B'', CHR ''T''}"
    unfolding c2 by simp
  from abbreviateNumber_without_suffix [OF z1 l1] abbreviateNumber_without_suffix [OF z2 l2] c1 c2 r
  show ?thesis by (simp del: compactFormat.simps)
qed

end
